theory Spec2Isabelle
  imports Complex_Main
begin

section \<open>Values and documents\<close>

text \<open>
  The dashboards read BSON documents through the database driver and handle them as Python
  values. A double is kept by its exact numeric value (a rational), with the three
  non-finite doubles as constructors of their own; rounding is not modelled. A
  \<open>Decimal128\<close> is the driver's wrapper class; its payload is the decimal it holds.
  A Python \<open>dict\<close> keeps its keys in insertion order and holds each key once: it is an
  association list, written by \<open>dict_set\<close>.
\<close>

datatype pyfloat = Fin rat | PosInf | NegInf | NaN

datatype decimal128 = Dec rat | DecPosInf | DecNegInf | DecNaN | DecSNaN

datatype pyval =
    VNone
  | VBool bool
  | VInt int
  | VFloat pyfloat
  | VStr string
  | VDecimal128 decimal128
  | VList "pyval list"
  | VTuple "pyval list"
  | VDict "(string \<times> pyval) list"

type_synonym doc = "(string \<times> pyval) list"

fun is_dict :: "pyval \<Rightarrow> bool" where
  "is_dict (VDict d) = True"
| "is_dict v = False"

text \<open>\<open>v.items()\<close> of a value that passed \<open>isinstance(v, dict)\<close>.\<close>

fun dict_items :: "pyval \<Rightarrow> doc" where
  "dict_items (VDict d) = d"
| "dict_items v = []"

text \<open>\<open>d[k] = v\<close>: an existing key keeps its place and takes the new value, a new key
  goes to the end.\<close>

fun dict_set :: "('k \<times> 'v) list \<Rightarrow> 'k \<Rightarrow> 'v \<Rightarrow> ('k \<times> 'v) list" where
  "dict_set [] k v = [(k, v)]"
| "dict_set ((k', v') # ps) k v =
     (if k' = k then (k, v) # ps else (k', v') # dict_set ps k v)"

text \<open>\<open>d.update(e)\<close>: the entries of \<open>e\<close> are stored one by one, in \<open>e\<close>'s order.\<close>

fun dict_update :: "('k \<times> 'v) list \<Rightarrow> ('k \<times> 'v) list \<Rightarrow> ('k \<times> 'v) list" where
  "dict_update d [] = d"
| "dict_update d ((k, v) # es) = dict_update (dict_set d k v) es"

text \<open>\<open>d.get(k)\<close> and \<open>k in d\<close>.\<close>

definition dict_get :: "('k \<times> 'v) list \<Rightarrow> 'k \<Rightarrow> 'v option" where
  "dict_get d k = map_of d k"

definition dict_has :: "('k \<times> 'v) list \<Rightarrow> 'k \<Rightarrow> bool" where
  "dict_has d k = (k \<in> set (map fst d))"

section \<open>airbnb\_analytics: conversion and flattening\<close>

definition DEFAULT_NUMERIC :: pyfloat where
  "DEFAULT_NUMERIC = Fin 0"

definition MAX_SAMPLE_SIZE :: nat where
  "MAX_SAMPLE_SIZE = 1000"

text \<open>\<open>float(value.to_decimal())\<close>: Python's \<open>float\<close> of a \<open>Decimal\<close> raises on a
  signalling NaN and returns a double for every other decimal. The double is kept by the
  exact value of the decimal: neither the rounding to the nearest double nor the overflow
  of a decimal beyond the range of a double to infinity is modelled.\<close>

fun float_of_decimal :: "decimal128 \<Rightarrow> pyfloat option" where
  "float_of_decimal (Dec r) = Some (Fin r)"
| "float_of_decimal DecPosInf = Some PosInf"
| "float_of_decimal DecNegInf = Some NegInf"
| "float_of_decimal DecNaN = Some NaN"
| "float_of_decimal DecSNaN = None"

fun safe_convert :: "pyval \<Rightarrow> pyval" where
  "safe_convert (VDecimal128 d) =
     (case float_of_decimal d of Some f \<Rightarrow> VFloat f | None \<Rightarrow> VFloat DEFAULT_NUMERIC)"
| "safe_convert v = v"

text \<open>The f-string \<open>f"{key}_{sub_key}"\<close>.\<close>

definition join_key :: "string \<Rightarrow> string \<Rightarrow> string" where
  "join_key key sub_key = key @ ''_'' @ sub_key"

text \<open>The inner loop of \<open>safe_flatten\<close> over \<open>value.items()\<close>, writing into \<open>flat\<close>.\<close>

fun flatten_sub :: "string \<Rightarrow> doc \<Rightarrow> doc \<Rightarrow> doc" where
  "flatten_sub key [] flat = flat"
| "flatten_sub key ((sub_key, sub_value) # rest) flat =
     flatten_sub key rest (dict_set flat (join_key key sub_key) (safe_convert sub_value))"

text \<open>The outer loop over \<open>doc.items()\<close>. The body's \<open>try ... except: pass\<close> guards
  statements that do not raise on the values modelled here (\<open>safe_convert\<close> catches its
  own failure), so the loop has no skipping branch.\<close>

fun flatten_items :: "doc \<Rightarrow> doc \<Rightarrow> doc" where
  "flatten_items [] flat = flat"
| "flatten_items ((key, value) # rest) flat =
     (case value of
        VDict d \<Rightarrow> flatten_items rest (flatten_sub key d flat)
      | _ \<Rightarrow> flatten_items rest (dict_set flat key (safe_convert value)))"

definition safe_flatten :: "doc \<Rightarrow> doc" where
  "safe_flatten d = flatten_items d []"

section \<open>dynamic\_dashboard\_df: flattening\<close>

text \<open>The same two loops as above, storing each value as it is.\<close>

fun flatten_sub_df :: "string \<Rightarrow> doc \<Rightarrow> doc \<Rightarrow> doc" where
  "flatten_sub_df key [] flat = flat"
| "flatten_sub_df key ((sub_key, sub_value) # rest) flat =
     flatten_sub_df key rest (dict_set flat (join_key key sub_key) sub_value)"

fun flatten_items_df :: "doc \<Rightarrow> doc \<Rightarrow> doc" where
  "flatten_items_df [] flat = flat"
| "flatten_items_df ((key, value) # rest) flat =
     (case value of
        VDict d \<Rightarrow> flatten_items_df rest (flatten_sub_df key d flat)
      | _ \<Rightarrow> flatten_items_df rest (dict_set flat key value))"

definition safe_flatten_df :: "doc \<Rightarrow> doc" where
  "safe_flatten_df d = flatten_items_df d []"

section \<open>dynamic\_dashboard\_mongo: flattening\<close>

text \<open>\<open>f"{parent_key}{sep}{k}" if parent_key else k\<close>: an empty parent key is falsy.\<close>

definition new_key :: "string \<Rightarrow> string \<Rightarrow> string \<Rightarrow> string" where
  "new_key parent_key sep k = (if parent_key \<noteq> [] then parent_key @ sep @ k else k)"

text \<open>The loop of the recursive \<open>safe_flatten(doc, parent_key, sep)\<close>, with \<open>items\<close> as
  the dict built so far; a dict value is flattened by the recursive call, started on an
  empty dict, and merged with \<open>items.update\<close>.\<close>

function flatten_loop_mongo :: "doc \<Rightarrow> string \<Rightarrow> string \<Rightarrow> doc \<Rightarrow> doc" where
  "flatten_loop_mongo [] parent_key sep items = items"
| "flatten_loop_mongo ((k, v) # rest) parent_key sep items =
     (if is_dict v
      then flatten_loop_mongo rest parent_key sep
             (dict_update items
                (flatten_loop_mongo (dict_items v) (new_key parent_key sep k) sep []))
      else flatten_loop_mongo rest parent_key sep (dict_set items (new_key parent_key sep k) v))"
  by pat_completeness auto
termination
proof (relation "measure (\<lambda>(d, pk, sep, items). size_list (size_prod (\<lambda>x. 0) size) d)")
  fix k :: string and v :: pyval and rest :: doc
  assume "is_dict v"
  then obtain d where "v = VDict d" by (cases v) auto
  then show "((dict_items v, new_key parent_key sep k, sep, []), (k, v) # rest, parent_key, sep, items)
      \<in> measure (\<lambda>(d, pk, sep, items). size_list (size_prod (\<lambda>x. 0) size) d)"
    for parent_key sep items
    by simp
qed auto

definition safe_flatten_mongo :: "doc \<Rightarrow> string \<Rightarrow> string \<Rightarrow> doc" where
  "safe_flatten_mongo d parent_key sep = flatten_loop_mongo d parent_key sep []"

text \<open>The call with the default arguments \<open>parent_key=''\<close> and \<open>sep='_'\<close>.\<close>

definition safe_flatten_mongo0 :: "doc \<Rightarrow> doc" where
  "safe_flatten_mongo0 d = safe_flatten_mongo d [] ''_''"

section \<open>Exceptions and what the page shows\<close>

text \<open>A raised exception, by what the handlers of the dashboards look at: whether its class
  derives from \<open>Exception\<close> (a bare \<open>except:\<close> catches every exception,
  \<open>except Exception\<close> only those), and \<open>str(e)\<close>.\<close>

datatype py_exn = PyExn (derives_Exception: bool) (str_of: string)

text \<open>The calls into the user interface, in the order made. A metric carries the value
  its f-string prints; the conversion of that value to text is not modelled.\<close>

datatype 'fig ui_event =
    UiHeader string
  | UiSubheader string
  | UiMetric string pyval
  | UiChart 'fig
  | UiWarning string
  | UiError string

section \<open>airbnb\_analytics: the tabular coercion\<close>

text \<open>
  A pandas \<open>DataFrame\<close> by its columns, in order, each with one cell for every row.
  \<open>pd.DataFrame(data)\<close> on a list of dicts takes the keys in order of first appearance
  as columns and fills a key that a row lacks with NaN. A cell that is present keeps its
  value: the change of an integer column to a float column that pandas makes when it
  fills in NaN is not modelled.
\<close>

record dataframe =
  nrows :: nat
  columns :: "(string \<times> pyval list) list"

definition empty_frame :: dataframe where
  "empty_frame = \<lparr>nrows = 0, columns = []\<rparr>"

definition add_key :: "string list \<Rightarrow> string \<Rightarrow> string list" where
  "add_key ks k = (if k \<in> set ks then ks else ks @ [k])"

definition frame_keys :: "doc list \<Rightarrow> string list" where
  "frame_keys data = fold (\<lambda>row ks. fold (\<lambda>k ks'. add_key ks' k) (map fst row) ks) data []"

definition cell :: "doc \<Rightarrow> string \<Rightarrow> pyval" where
  "cell row k = (case dict_get row k of Some v \<Rightarrow> v | None \<Rightarrow> VFloat NaN)"

definition DataFrame :: "doc list \<Rightarrow> dataframe" where
  "DataFrame data =
     \<lparr>nrows = length data,
      columns = map (\<lambda>k. (k, map (\<lambda>row. cell row k) data)) (frame_keys data)\<rparr>"

text \<open>\<open>src in df.columns\<close>, \<open>df[src]\<close> and \<open>df[dest] = ...\<close> with a whole column.\<close>

definition has_column :: "dataframe \<Rightarrow> string \<Rightarrow> bool" where
  "has_column df c = dict_has (columns df) c"

definition get_column :: "dataframe \<Rightarrow> string \<Rightarrow> pyval list option" where
  "get_column df c = dict_get (columns df) c"

definition set_column :: "dataframe \<Rightarrow> string \<Rightarrow> pyval list \<Rightarrow> dataframe" where
  "set_column df c cells = df\<lparr>columns := dict_set (columns df) c cells\<rparr>"

text \<open>The three target types of \<open>numeric_config\<close>: Python's \<open>float\<close>, \<open>int\<close> and
  \<open>bool\<close>, used both as a cast of the default and as the \<open>astype\<close> argument.\<close>

datatype dtype = PyFloat | PyInt | PyBool

text \<open>A cell of a numeric series, as \<open>pd.to_numeric\<close> leaves it.\<close>

datatype pynum = NInt int | NFloat pyfloat

text \<open>
  \<open>pd.to_numeric(..., errors='coerce')\<close>, cell by cell: numbers stay, a boolean counts as
  0 or 1, a missing value is NaN, a string is read by the parser of pandas, taken here as
  the parameter \<open>parse\<close> (\<open>None\<close> when the text is not a number), and whatever cannot be read
  as a number becomes NaN.
\<close>

fun to_numeric_cell :: "(string \<Rightarrow> pynum option) \<Rightarrow> pyval \<Rightarrow> pynum" where
  "to_numeric_cell parse (VInt n) = NInt n"
| "to_numeric_cell parse (VFloat f) = NFloat f"
| "to_numeric_cell parse (VBool b) = NInt (if b then 1 else 0)"
| "to_numeric_cell parse (VStr s) = (case parse s of Some n \<Rightarrow> n | None \<Rightarrow> NFloat NaN)"
| "to_numeric_cell parse v = NFloat NaN"

text \<open>One instance of the parameter: a reader of unsigned decimal literals (digits, with
  an optional fraction), an integer without a fraction and a double with one.\<close>

fun digits_value :: "string \<Rightarrow> nat \<Rightarrow> nat option" where
  "digits_value [] acc = Some acc"
| "digits_value (c # cs) acc =
     (if 48 \<le> (of_char c :: nat) \<and> (of_char c :: nat) \<le> 57
      then digits_value cs (10 * acc + (of_char c - 48))
      else None)"

definition plain_decimal :: "string \<Rightarrow> pynum option" where
  "plain_decimal s =
     (let ip = takeWhile (\<lambda>c. c \<noteq> CHR ''.'') s; fp = dropWhile (\<lambda>c. c \<noteq> CHR ''.'') s
      in if ip = [] then None
         else if fp = [] then map_option (\<lambda>n. NInt (int n)) (digits_value ip 0)
         else if tl fp = [] then None
         else (case (digits_value ip 0, digits_value (tl fp) 0) of
                 (Some a, Some b) \<Rightarrow> Some (NFloat (Fin (of_nat a + of_nat b / 10 ^ length (tl fp))))
               | _ \<Rightarrow> None))"

text \<open>\<open>.fillna(DEFAULT_NUMERIC)\<close>.\<close>

fun fillna :: "pyfloat \<Rightarrow> pynum \<Rightarrow> pynum" where
  "fillna d (NFloat NaN) = NFloat d"
| "fillna d x = x"

text \<open>Truncation toward zero, as a cast of a finite double to an integer does.\<close>

definition trunc :: "rat \<Rightarrow> int" where
  "trunc r = (if 0 \<le> r then \<lfloor>r\<rfloor> else \<lceil>r\<rceil>)"

text \<open>\<open>.astype(dtype)\<close> on one cell. pandas refuses to cast a non-finite double to an
  integer, with the text given here in pandas 2. The integer is unbounded in the model,
  where pandas casts to 64 bits.\<close>

fun astype_cell :: "dtype \<Rightarrow> pynum \<Rightarrow> py_exn + pyval" where
  "astype_cell PyFloat (NInt n) = Inr (VFloat (Fin (of_int n)))"
| "astype_cell PyFloat (NFloat f) = Inr (VFloat f)"
| "astype_cell PyInt (NInt n) = Inr (VInt n)"
| "astype_cell PyInt (NFloat (Fin r)) = Inr (VInt (trunc r))"
| "astype_cell PyInt (NFloat f) =
     Inl (PyExn True ''Cannot convert non-finite values (NA or inf) to integer'')"
| "astype_cell PyBool (NInt n) = Inr (VBool (n \<noteq> 0))"
| "astype_cell PyBool (NFloat (Fin r)) = Inr (VBool (r \<noteq> 0))"
| "astype_cell PyBool (NFloat f) = Inr (VBool True)"

text \<open>A whole series: the first cell that cannot be cast raises.\<close>

fun astype :: "dtype \<Rightarrow> pynum list \<Rightarrow> py_exn + pyval list" where
  "astype dt [] = Inr []"
| "astype dt (x # xs) =
     (case astype_cell dt x of
        Inl e \<Rightarrow> Inl e
      | Inr v \<Rightarrow> (case astype dt xs of Inl e \<Rightarrow> Inl e | Inr vs \<Rightarrow> Inr (v # vs)))"

text \<open>\<open>dtype(DEFAULT_NUMERIC)\<close>: the Python cast of a double.\<close>

fun py_cast :: "dtype \<Rightarrow> pyfloat \<Rightarrow> py_exn + pyval" where
  "py_cast PyFloat f = Inr (VFloat f)"
| "py_cast PyInt (Fin r) = Inr (VInt (trunc r))"
| "py_cast PyInt NaN = Inl (PyExn True ''cannot convert float NaN to integer'')"
| "py_cast PyInt f = Inl (PyExn True ''cannot convert float infinity to integer'')"
| "py_cast PyBool (Fin r) = Inr (VBool (r \<noteq> 0))"
| "py_cast PyBool f = Inr (VBool True)"

definition numeric_config :: "(string \<times> string \<times> dtype) list" where
  "numeric_config =
     [(''price_$numberDecimal'', ''price'', PyFloat),
      (''cleaning_fee_$numberDecimal'', ''cleaning_fee'', PyFloat),
      (''review_scores_review_scores_rating_$numberInt'', ''review_rating'', PyInt),
      (''accommodates_$numberInt'', ''accommodates'', PyInt),
      (''bedrooms_$numberInt'', ''bedrooms'', PyInt),
      (''bathrooms_$numberDecimal'', ''bathrooms'', PyFloat),
      (''host_host_is_superhost'', ''host_is_superhost'', PyBool)]"

text \<open>One round of the loop over \<open>numeric_config\<close>.\<close>

definition coerce_column ::
  "(string \<Rightarrow> pynum option) \<Rightarrow> dataframe \<Rightarrow> string \<times> string \<times> dtype \<Rightarrow> py_exn + dataframe" where
  "coerce_column parse df cfg =
     (case cfg of (src, dest, dt) \<Rightarrow>
        (case get_column df src of
           Some cells \<Rightarrow>
             (case astype dt (map (fillna DEFAULT_NUMERIC \<circ> to_numeric_cell parse) cells) of
                Inl e \<Rightarrow> Inl e
              | Inr vs \<Rightarrow> Inr (set_column df dest vs))
         | None \<Rightarrow>
             (case py_cast dt DEFAULT_NUMERIC of
                Inl e \<Rightarrow> Inl e
              | Inr v \<Rightarrow> Inr (set_column df dest (replicate (nrows df) v)))))"

fun coerce_columns ::
  "(string \<Rightarrow> pynum option) \<Rightarrow> (string \<times> string \<times> dtype) list \<Rightarrow> dataframe \<Rightarrow> py_exn + dataframe" where
  "coerce_columns parse [] df = Inr df"
| "coerce_columns parse (cfg # rest) df =
     (case coerce_column parse df cfg of
        Inl e \<Rightarrow> Inl e
      | Inr df' \<Rightarrow> coerce_columns parse rest df')"

text \<open>The lambda applied to \<open>address_location_coordinates\<close>: a list of two gives the pair
  swapped, anything else the pair of \<open>None\<close>.\<close>

fun swap_coordinates :: "pyval \<Rightarrow> pyval" where
  "swap_coordinates (VList [x0, x1]) = VTuple [x1, x0]"
| "swap_coordinates x = VTuple [VNone, VNone]"

text \<open>The two columns of \<open>pd.DataFrame(df['coordinates'].tolist(), index=df.index)\<close>. A
  missing coordinate is kept as \<open>None\<close> (pandas shows it as NaN in a column of numbers).\<close>

fun tuple_item :: "nat \<Rightarrow> pyval \<Rightarrow> pyval" where
  "tuple_item i (VTuple xs) = (if i < length xs then xs ! i else VNone)"
| "tuple_item i v = VNone"

definition add_coordinates :: "dataframe \<Rightarrow> dataframe" where
  "add_coordinates df =
     (case get_column df ''address_location_coordinates'' of
        Some cells \<Rightarrow>
          (let coordinates = map swap_coordinates cells;
               df1 = set_column df ''coordinates'' coordinates;
               df2 = set_column df1 ''lat'' (map (tuple_item 0) coordinates)
           in set_column df2 ''lon'' (map (tuple_item 1) coordinates))
      | None \<Rightarrow> df)"

text \<open>The body of the \<open>try\<close> of \<open>safe_dataframe\<close>, and the function with its handler: on
  any exception it reports the error and returns an empty frame.\<close>

definition dataframe_body :: "(string \<Rightarrow> pynum option) \<Rightarrow> doc list \<Rightarrow> py_exn + dataframe" where
  "dataframe_body parse data =
     (case coerce_columns parse numeric_config (DataFrame data) of
        Inl e \<Rightarrow> Inl e
      | Inr df \<Rightarrow> Inr (add_coordinates df))"

definition safe_dataframe ::
  "(string \<Rightarrow> pynum option) \<Rightarrow> doc list \<Rightarrow> 'fig ui_event list \<times> dataframe" where
  "safe_dataframe parse data =
     (case dataframe_body parse data of
        Inl e \<Rightarrow> ([UiError (''Data processing error: '' @ str_of e)], empty_frame)
      | Inr df \<Rightarrow> ([], df))"

section \<open>The document store\<close>

text \<open>
  A collection is the list of its documents. \<open>find()\<close> without a filter yields all of
  them; \<open>.limit(n)\<close> on the cursor keeps the first \<open>n\<close>, and a limit of 0 means no limit.
\<close>

definition find :: "doc list \<Rightarrow> doc list" where
  "find collection = collection"

definition cursor_limit :: "nat \<Rightarrow> doc list \<Rightarrow> doc list" where
  "cursor_limit n cursor = (if n = 0 then cursor else take n cursor)"

text \<open>
  What the dashboards do not decide is a parameter of the model: how the store evaluates
  an \<open>$addFields\<close> or \<open>$project\<close> specification on one document, which documents
  \<open>$sample\<close> draws, how a dotted field path is resolved, what the accumulators other than
  a constant \<open>$sum\<close> and \<open>$addToSet\<close> return, and which values the store takes for the same
  element of a set (two values are the same element when their keys are equal).
\<close>

record store =
  add_fields :: "doc \<Rightarrow> doc \<Rightarrow> py_exn + doc"
  project :: "doc \<Rightarrow> doc \<Rightarrow> py_exn + doc"
  sample :: "nat \<Rightarrow> doc list \<Rightarrow> doc list"
  nested_path :: "string \<Rightarrow> doc \<Rightarrow> pyval option"
  other_accumulator :: "string \<Rightarrow> pyval \<Rightarrow> doc list \<Rightarrow> pyval"
  value_key :: "pyval \<Rightarrow> pyval"

text \<open>A stage that works document by document stops at the first document it fails on.\<close>

fun each_doc :: "(doc \<Rightarrow> py_exn + doc) \<Rightarrow> doc list \<Rightarrow> py_exn + doc list" where
  "each_doc f [] = Inr []"
| "each_doc f (d # ds) =
     (case f d of
        Inl e \<Rightarrow> Inl e
      | Inr d' \<Rightarrow> (case each_doc f ds of Inl e \<Rightarrow> Inl e | Inr ds' \<Rightarrow> Inr (d' # ds')))"

text \<open>The field path \<open>$name\<close>: the top-level field of that name, absent when the document
  lacks it; a dotted path is left to the store.\<close>

definition field_value :: "store \<Rightarrow> string \<Rightarrow> doc \<Rightarrow> pyval option" where
  "field_value st path d =
     (if CHR ''.'' \<in> set path then nested_path st path d else dict_get d path)"

text \<open>\<open>$addToSet\<close>: a value joins the array unless an element with the same key is
  there; a document without the field adds nothing.\<close>

fun add_to_set :: "(pyval \<Rightarrow> pyval) \<Rightarrow> pyval list \<Rightarrow> pyval list \<Rightarrow> pyval list" where
  "add_to_set key [] acc = acc"
| "add_to_set key (v # vs) acc =
     add_to_set key vs (if key v \<in> key ` set acc then acc else acc @ [v])"

definition present_values :: "store \<Rightarrow> string \<Rightarrow> doc list \<Rightarrow> pyval list" where
  "present_values st path docs = List.map_filter (field_value st path) docs"

text \<open>One accumulator \<open>{operator: argument}\<close> of a \<open>$group\<close> stage over the documents of
  the group: \<open>$sum\<close> of an integer constant adds it once for each document.\<close>

definition accumulate :: "store \<Rightarrow> pyval \<Rightarrow> doc list \<Rightarrow> py_exn + pyval" where
  "accumulate st acc docs =
     (case acc of
        VDict [(operator, VInt c)] \<Rightarrow>
          if operator = ''$sum'' then Inr (VInt (c * int (length docs)))
          else Inr (other_accumulator st operator (VInt c) docs)
      | VDict [(operator, VStr arg)] \<Rightarrow>
          if operator = ''$addToSet'' \<and> arg \<noteq> [] \<and> hd arg = CHR ''$''
          then Inr (VList (add_to_set (value_key st) (present_values st (tl arg) docs) []))
          else Inr (other_accumulator st operator (VStr arg) docs)
      | _ \<Rightarrow> Inl (PyExn True ''a group field must specify one accumulator''))"

fun accumulate_all :: "store \<Rightarrow> doc \<Rightarrow> doc list \<Rightarrow> py_exn + doc" where
  "accumulate_all st [] docs = Inr []"
| "accumulate_all st ((name, acc) # rest) docs =
     (case accumulate st acc docs of
        Inl e \<Rightarrow> Inl e
      | Inr v \<Rightarrow>
          (case accumulate_all st rest docs of
             Inl e \<Rightarrow> Inl e
           | Inr vs \<Rightarrow> Inr ((name, v) # vs)))"

text \<open>\<open>$group\<close> with \<open>_id: None\<close>: all documents form one group, and no document at all
  forms no group, so the stage then yields nothing. Other group keys are not used by the
  dashboards.\<close>

definition run_group :: "store \<Rightarrow> doc \<Rightarrow> doc list \<Rightarrow> py_exn + doc list" where
  "run_group st spec docs =
     (case spec of
        (k, VNone) # accs \<Rightarrow>
          if k = ''_id'' then
            (if docs = [] then Inr []
             else (case accumulate_all st accs docs of
                     Inl e \<Rightarrow> Inl e
                   | Inr vs \<Rightarrow> Inr [(''_id'', VNone) # vs]))
          else Inl (PyExn True ''a group specification must include an _id'')
      | _ \<Rightarrow> Inl (PyExn True ''a group specification must include an _id''))"

text \<open>One pipeline stage, a dict with the stage name as its only key.\<close>

definition run_stage :: "store \<Rightarrow> pyval \<Rightarrow> doc list \<Rightarrow> py_exn + doc list" where
  "run_stage st stage docs =
     (case stage of
        VDict [(name, VInt n)] \<Rightarrow>
          if name = ''$limit'' \<and> 0 < n then Inr (take (nat n) docs)
          else Inl (PyExn True ''invalid pipeline stage'')
      | VDict [(name, VDict spec)] \<Rightarrow>
          if name = ''$addFields'' then each_doc (add_fields st spec) docs
          else if name = ''$project'' then each_doc (project st spec) docs
          else if name = ''$group'' then run_group st spec docs
          else if name = ''$sample'' then
            (case spec of
               [(k, VInt n)] \<Rightarrow>
                 if k = ''size'' \<and> 0 < n then Inr (take (nat n) (sample st (nat n) docs))
                 else Inl (PyExn True ''invalid pipeline stage'')
             | _ \<Rightarrow> Inl (PyExn True ''invalid pipeline stage''))
          else Inl (PyExn True ''invalid pipeline stage'')
      | _ \<Rightarrow> Inl (PyExn True ''invalid pipeline stage''))"

text \<open>\<open>list(collection.aggregate(pipeline))\<close>.\<close>

fun aggregate :: "store \<Rightarrow> pyval list \<Rightarrow> doc list \<Rightarrow> py_exn + doc list" where
  "aggregate st [] docs = Inr docs"
| "aggregate st (stage # rest) docs =
     (case run_stage st stage docs of
        Inl e \<Rightarrow> Inl e
      | Inr docs' \<Rightarrow> aggregate st rest docs')"

section \<open>The queries of the three dashboards\<close>

text \<open>airbnb\_analytics: \<open>list(collection.find().limit(MAX_SAMPLE_SIZE))\<close>;
  dynamic\_dashboard\_df: \<open>collection.find().limit(1000)\<close>.\<close>

definition load_airbnb :: "doc list \<Rightarrow> doc list" where
  "load_airbnb collection = cursor_limit MAX_SAMPLE_SIZE (find collection)"

definition load_df :: "doc list \<Rightarrow> doc list" where
  "load_df collection = cursor_limit 1000 (find collection)"

text \<open>dynamic\_dashboard\_mongo: the pipeline of \<open>get_available_fields\<close>.\<close>

definition sample_pipeline :: "pyval list" where
  "sample_pipeline =
     [VDict [(''$sample'', VDict [(''size'', VInt 10)])], VDict [(''$limit'', VInt 10)]]"

text \<open>The base pipeline: one \<open>$addFields\<close> stage for each custom field whose expression
  evaluated, given here with the value \<open>eval\<close> returned.\<close>

definition base_pipeline :: "(string \<times> pyval) list \<Rightarrow> pyval list" where
  "base_pipeline custom_fields =
     map (\<lambda>(field, expr). VDict [(''$addFields'', VDict [(field, expr)])]) custom_fields"

text \<open>The visualization pipeline. The projection starts as the dict literal
  \<open>{"_id": 0, x_field: 1}\<close>, in which a second \<open>_id\<close> replaces the first; an empty field
  name is falsy and is left out.\<close>

definition projection :: "string \<Rightarrow> string \<Rightarrow> string \<Rightarrow> string \<Rightarrow> doc" where
  "projection x_field y_field color_field size_field =
     (let p0 = dict_set [(''_id'', VInt 0)] x_field (VInt 1);
          p1 = (if y_field \<noteq> [] then dict_set p0 y_field (VInt 1) else p0);
          p2 = (if color_field \<noteq> [] then dict_set p1 color_field (VInt 1) else p1)
      in if size_field \<noteq> [] then dict_set p2 size_field (VInt 1) else p2)"

definition vis_pipeline :: "pyval list \<Rightarrow> string \<Rightarrow> string \<Rightarrow> string \<Rightarrow> string \<Rightarrow> pyval list" where
  "vis_pipeline pipeline x_field y_field color_field size_field =
     pipeline @ [VDict [(''$project'', VDict (projection x_field y_field color_field size_field))]]
              @ [VDict [(''$limit'', VInt 1000)]]"

section \<open>dynamic\_dashboard\_mongo: metrics\<close>

record metric_config =
  operator :: string
  mvalue :: pyval
  requires_field :: bool

definition METRIC_OPERATIONS :: "(string \<times> metric_config) list" where
  "METRIC_OPERATIONS =
     [(''Count'', \<lparr>operator = ''$sum'', mvalue = VInt 1, requires_field = False\<rparr>),
      (''Sum'', \<lparr>operator = ''$sum'', mvalue = VStr ''$value'', requires_field = True\<rparr>),
      (''Average'', \<lparr>operator = ''$avg'', mvalue = VStr ''$value'', requires_field = True\<rparr>),
      (''Max'', \<lparr>operator = ''$max'', mvalue = VStr ''$value'', requires_field = True\<rparr>),
      (''Min'', \<lparr>operator = ''$min'', mvalue = VStr ''$value'', requires_field = True\<rparr>),
      (''Unique Count'', \<lparr>operator = ''$addToSet'', mvalue = VStr ''$value'', requires_field = True\<rparr>)]"

text \<open>\<open>str.lower()\<close> on ASCII letters.\<close>

definition char_lower :: "char \<Rightarrow> char" where
  "char_lower c =
     (if 65 \<le> (of_char c :: nat) \<and> (of_char c :: nat) \<le> 90 then char_of (of_char c + 32 :: nat) else c)"

definition lower :: "string \<Rightarrow> string" where
  "lower s = map char_lower s"

text \<open>\<open>s.replace(old, new)\<close> for a non-empty \<open>old\<close>: every occurrence, left to right.\<close>

function replace :: "string \<Rightarrow> string \<Rightarrow> string \<Rightarrow> string" where
  "replace [] old new = []"
| "replace (c # cs) old new =
     (if old \<noteq> [] \<and> take (length old) (c # cs) = old
      then new @ replace (drop (length old) (c # cs)) old new
      else c # replace cs old new)"
  by pat_completeness auto
termination
  by (relation "measure (\<lambda>(s, old, new). length s)") auto

text \<open>\<open>build_metric_group\<close>: a metric that is not a key of \<open>METRIC_OPERATIONS\<close> raises
  \<open>KeyError\<close>; \<open>Count\<close> takes the constant of its configuration, any other metric that
  requires a field takes the field path. Every configured value other than the one of
  \<open>Count\<close> is a string, so \<open>.replace\<close> does not fail on them. The text of the
  \<open>KeyError\<close> is the name between single quotes, as \<open>repr\<close> shows a name that holds no
  quote or escape of its own.\<close>

fun build_metric_loop :: "string \<Rightarrow> string list \<Rightarrow> doc \<Rightarrow> py_exn + doc" where
  "build_metric_loop field [] group_stage = Inr group_stage"
| "build_metric_loop field (metric # rest) group_stage =
     (case dict_get METRIC_OPERATIONS metric of
        None \<Rightarrow> Inl (PyExn True ([CHR 0x27] @ metric @ [CHR 0x27]))
      | Some config \<Rightarrow>
          if metric = ''Count''
          then build_metric_loop field rest
                 (dict_set group_stage (lower metric) (VDict [(operator config, mvalue config)]))
          else if requires_field config
          then (case mvalue config of
                  VStr s \<Rightarrow>
                    build_metric_loop field rest
                      (dict_set group_stage (lower metric)
                         (VDict [(operator config, VStr (replace s ''$value'' (''$'' @ field)))]))
                | _ \<Rightarrow> Inl (PyExn True ''object has no attribute replace''))
          else build_metric_loop field rest group_stage)"

definition build_metric_group :: "string \<Rightarrow> string list \<Rightarrow> py_exn + doc" where
  "build_metric_group field metrics = build_metric_loop field metrics [(''_id'', VNone)]"

text \<open>\<open>len(x)\<close>, with the \<open>TypeError\<close> that names the type of a value without a length,
  and \<open>d.get(k, default)\<close>.\<close>

definition no_len :: "string \<Rightarrow> py_exn" where
  "no_len type_name =
     PyExn True (''object of type '' @ [CHR 0x27] @ type_name @ [CHR 0x27] @ '' has no len()'')"

fun py_len :: "pyval \<Rightarrow> py_exn + int" where
  "py_len (VList xs) = Inr (int (length xs))"
| "py_len (VTuple xs) = Inr (int (length xs))"
| "py_len (VStr s) = Inr (int (length s))"
| "py_len (VDict d) = Inr (int (length d))"
| "py_len VNone = Inl (no_len ''NoneType'')"
| "py_len (VBool b) = Inl (no_len ''bool'')"
| "py_len (VInt n) = Inl (no_len ''int'')"
| "py_len (VFloat f) = Inl (no_len ''float'')"
| "py_len (VDecimal128 x) = Inl (no_len ''Decimal128'')"

definition dict_get_default :: "doc \<Rightarrow> string \<Rightarrow> pyval \<Rightarrow> pyval" where
  "dict_get_default d k dflt = (case dict_get d k of Some v \<Rightarrow> v | None \<Rightarrow> dflt)"

text \<open>The value shown for one metric, read from the result document.\<close>

definition metric_value :: "doc \<Rightarrow> string \<Rightarrow> py_exn + pyval" where
  "metric_value result metric =
     (if metric = ''Count'' then Inr (dict_get_default result (lower metric) (VInt 0))
      else if metric = ''Unique Count''
      then (case py_len (dict_get_default result (lower metric) (VList [])) of
              Inl e \<Rightarrow> Inl e
            | Inr n \<Rightarrow> Inr (VInt n))
      else Inr (dict_get_default result (lower metric) (VInt 0)))"

text \<open>The loop over \<open>metric_types\<close>: the metrics shown, and the exception that ended the
  loop if one did. A metric carries the value computed for it; the rounding of a float to
  two places happens in the f-string with the conversion to text.\<close>

fun show_metrics :: "doc \<Rightarrow> string list \<Rightarrow> 'fig ui_event list \<times> py_exn option" where
  "show_metrics result [] = ([], None)"
| "show_metrics result (metric # rest) =
     (case metric_value result metric of
        Inl e \<Rightarrow> ([], Some e)
      | Inr v \<Rightarrow>
          (case show_metrics result rest of (evs, exn) \<Rightarrow> (UiMetric metric v # evs, exn)))"

text \<open>The body of the \<open>try\<close> for one metric field: the pipeline is the base pipeline with
  the \<open>$group\<close> stage appended, and the result is the first document of the answer.\<close>

definition metrics_body ::
  "store \<Rightarrow> doc list \<Rightarrow> pyval list \<Rightarrow> string \<Rightarrow> string list \<Rightarrow> 'fig ui_event list \<times> py_exn option" where
  "metrics_body st collection pipeline field metric_types =
     (case build_metric_group field metric_types of
        Inl e \<Rightarrow> ([], Some e)
      | Inr group_stage \<Rightarrow>
          (case aggregate st (pipeline @ [VDict [(''$group'', VDict group_stage)]]) collection of
             Inl e \<Rightarrow> ([], Some e)
           | Inr [] \<Rightarrow> ([], Some (PyExn True ''list index out of range''))
           | Inr (result # others) \<Rightarrow> show_metrics result metric_types))"

text \<open>\<open>except Exception as e\<close> with a handler that shows \<open>prefix\<close> and \<open>str(e)\<close>: an
  exception whose class does not derive from \<open>Exception\<close> goes on to the caller.\<close>

definition except_Exception ::
  "(string \<Rightarrow> 'fig ui_event) \<Rightarrow> string \<Rightarrow> 'fig ui_event list \<times> py_exn option
     \<Rightarrow> 'fig ui_event list \<times> py_exn option" where
  "except_Exception banner prefix r =
     (case r of
        (evs, None) \<Rightarrow> (evs, None)
      | (evs, Some e) \<Rightarrow>
          if derives_Exception e then (evs @ [banner (prefix @ str_of e)], None)
          else (evs, Some e))"

definition field_metrics ::
  "store \<Rightarrow> doc list \<Rightarrow> pyval list \<Rightarrow> string \<Rightarrow> string list \<Rightarrow> 'fig ui_event list \<times> py_exn option" where
  "field_metrics st collection pipeline field metric_types =
     except_Exception UiError ''Metrics error: ''
       (metrics_body st collection pipeline field metric_types)"

section \<open>dynamic\_dashboard\_mongo: field validation\<close>

text \<open>The list comprehension of \<open>validate_fields\<close> reads \<open>data[0]\<close> once for each required
  field, so an empty \<open>data\<close> raises \<open>IndexError\<close> at the first field, and with no field
  nothing is read.\<close>

fun missing_fields :: "doc list \<Rightarrow> string list \<Rightarrow> py_exn + string list" where
  "missing_fields data [] = Inr []"
| "missing_fields data (field # rest) =
     (case data of
        [] \<Rightarrow> Inl (PyExn True ''list index out of range'')
      | first # others \<Rightarrow>
          (case missing_fields data rest of
             Inl e \<Rightarrow> Inl e
           | Inr missing \<Rightarrow> Inr (if \<not> dict_has first field then field # missing else missing)))"

text \<open>\<open>sep.join(xs)\<close>.\<close>

fun join :: "string \<Rightarrow> string list \<Rightarrow> string" where
  "join sep [] = []"
| "join sep [x] = x"
| "join sep (x # y # ys) = x @ sep @ join sep (y # ys)"

definition validate_fields :: "doc list \<Rightarrow> string list \<Rightarrow> py_exn + ('fig ui_event list \<times> bool)" where
  "validate_fields data required_fields =
     (case missing_fields data required_fields of
        Inl e \<Rightarrow> Inl e
      | Inr missing \<Rightarrow>
          if missing \<noteq> [] then Inr ([UiError (''Missing fields: '' @ join '', '' missing)], False)
          else Inr ([], True))"

section \<open>The charting and table library\<close>

text \<open>
  The renderers call into pandas, plotly and the page; what those calls return or raise
  is a parameter of the model. \<open>mean_text\<close> is the f-string over the mean of a column,
  given the column and the format; \<open>px_chart\<close> is \<open>px.<kind>(frame, **kwargs)\<close>;
  \<open>review_figure\<close> is the radar figure built from the means of the review columns;
  \<open>top_amenities\<close> is \<open>df['amenities'].explode().value_counts().head(10)\<close>, \<open>dropna\<close> is
  \<open>df.dropna(subset=...)\<close>, and \<open>plotly_chart\<close> is \<open>st.plotly_chart(fig)\<close>, which returns
  nothing or raises. The calls \<open>st.header\<close>, \<open>st.columns\<close>, \<open>col.metric\<close> and \<open>st.warning\<close>
  are taken not to raise.
\<close>

record 'fig charting =
  mean_text :: "dataframe \<Rightarrow> string \<Rightarrow> string \<Rightarrow> py_exn + string"
  px_chart :: "string \<Rightarrow> dataframe \<Rightarrow> (string \<times> pyval) list \<Rightarrow> py_exn + 'fig"
  review_figure :: "dataframe \<Rightarrow> string list \<Rightarrow> py_exn + 'fig"
  top_amenities :: "dataframe \<Rightarrow> py_exn + dataframe"
  dropna :: "dataframe \<Rightarrow> string list \<Rightarrow> py_exn + dataframe"
  plotly_chart :: "'fig \<Rightarrow> py_exn option"

text \<open>The end of a \<open>try\<close> body that builds a figure and draws it: the events so far, and
  the exception if the construction or the drawing raised.\<close>

definition draw ::
  "'fig charting \<Rightarrow> 'fig ui_event list \<Rightarrow> py_exn + 'fig \<Rightarrow> 'fig ui_event list \<times> py_exn option" where
  "draw lib evs built =
     (case built of
        Inl e \<Rightarrow> (evs, Some e)
      | Inr fig \<Rightarrow>
          (case plotly_chart lib fig of
             Some e \<Rightarrow> (evs, Some e)
           | None \<Rightarrow> (evs @ [UiChart fig], None)))"

text \<open>A bare \<open>except:\<close> whose handler is \<open>st.warning(message)\<close>: every exception is caught,
  the fixed message is shown, and the function returns.\<close>

definition except_all ::
  "string \<Rightarrow> 'fig ui_event list \<times> py_exn option \<Rightarrow> 'fig ui_event list" where
  "except_all message r =
     (case r of
        (evs, None) \<Rightarrow> evs
      | (evs, Some e) \<Rightarrow> evs @ [UiWarning message])"

section \<open>airbnb\_analytics: the panels\<close>

text \<open>The headers start with an emoji, written here by its UTF-8 bytes.\<close>

definition metrics_header :: string where
  "metrics_header = [CHR 0xF0, CHR 0x9F, CHR 0x93, CHR 0x8A] @ '' Key Metrics''"

definition pricing_header :: string where
  "pricing_header = [CHR 0xF0, CHR 0x9F, CHR 0x92, CHR 0xB0] @ '' Pricing Insights''"

definition review_header :: string where
  "review_header = [CHR 0xE2, CHR 0xAD, CHR 0x90] @ '' Review Breakdown''"

definition amenities_header :: string where
  "amenities_header = [CHR 0xF0, CHR 0x9F, CHR 0x8F, CHR 0x86] @ '' Top Amenities''"

definition geo_header :: string where
  "geo_header = [CHR 0xF0, CHR 0x9F, CHR 0x93, CHR 0x8D] @ '' Geographic Distribution''"

text \<open>\<open>render_metrics\<close>: the label, the column and the format of each of the five entries of
  the \<open>metrics\<close> dict. The dict is built whole before the first metric is shown.\<close>

definition metric_formats :: "(string \<times> string \<times> string) list" where
  "metric_formats =
     [(''Avg Price'', ''price'', ''${mean:.2f}''),
      (''Avg Rating'', ''review_rating'', ''{mean:.0f}/100''),
      (''Superhost %'', ''host_is_superhost'', ''{mean*100:.1f}%''),
      (''Avg Bedrooms'', ''bedrooms'', ''{mean:.1f}''),
      (''Avg Bathrooms'', ''bathrooms'', ''{mean:.1f}'')]"

fun metric_texts ::
  "'fig charting \<Rightarrow> dataframe \<Rightarrow> (string \<times> string \<times> string) list \<Rightarrow> py_exn + (string \<times> string) list" where
  "metric_texts lib df [] = Inr []"
| "metric_texts lib df ((label, column, format) # rest) =
     (case mean_text lib df column format of
        Inl e \<Rightarrow> Inl e
      | Inr v \<Rightarrow>
          (case metric_texts lib df rest of
             Inl e \<Rightarrow> Inl e
           | Inr kvs \<Rightarrow> Inr ((label, v) # kvs)))"

definition metrics_panel :: "'fig charting \<Rightarrow> dataframe \<Rightarrow> 'fig ui_event list \<times> py_exn option" where
  "metrics_panel lib df =
     (case metric_texts lib df metric_formats of
        Inl e \<Rightarrow> ([UiHeader metrics_header], Some e)
      | Inr kvs \<Rightarrow> (UiHeader metrics_header # map (\<lambda>(k, v). UiMetric k (VStr v)) kvs, None))"

definition render_metrics :: "'fig charting \<Rightarrow> dataframe \<Rightarrow> 'fig ui_event list" where
  "render_metrics lib df = except_all ''Metrics unavailable'' (metrics_panel lib df)"

text \<open>\<open>render_price_analysis\<close>.\<close>

definition price_kwargs :: "(string \<times> pyval) list" where
  "price_kwargs =
     [(''x'', VStr ''accommodates''), (''y'', VStr ''price''), (''color'', VStr ''room_type''),
      (''size'', VStr ''bedrooms''), (''hover_name'', VStr ''property_type''),
      (''title'', VStr ''Price vs Capacity'')]"

definition render_price_analysis :: "'fig charting \<Rightarrow> dataframe \<Rightarrow> 'fig ui_event list" where
  "render_price_analysis lib df =
     except_all ''Price analysis unavailable''
       (draw lib [UiHeader pricing_header] (px_chart lib ''scatter'' df price_kwargs))"

text \<open>\<open>render_review_analysis\<close>: nothing is shown when no column starts with
  \<open>review_scores_\<close>.\<close>

definition startswith :: "string \<Rightarrow> string \<Rightarrow> bool" where
  "startswith s p = (take (length p) s = p)"

definition review_cols :: "dataframe \<Rightarrow> string list" where
  "review_cols df = filter (\<lambda>c. startswith c ''review_scores_'') (map fst (columns df))"

definition render_review_analysis :: "'fig charting \<Rightarrow> dataframe \<Rightarrow> 'fig ui_event list" where
  "render_review_analysis lib df =
     except_all ''Review analysis unavailable''
       (if review_cols df \<noteq> []
        then draw lib [UiHeader review_header] (review_figure lib df (review_cols df))
        else ([], None))"

text \<open>\<open>render_amenities\<close>.\<close>

definition amenities_kwargs :: "(string \<times> pyval) list" where
  "amenities_kwargs =
     [(''orientation'', VStr ''h''),
      (''labels'', VDict [(''index'', VStr ''Amenity''), (''value'', VStr ''Count'')])]"

definition render_amenities :: "'fig charting \<Rightarrow> dataframe \<Rightarrow> 'fig ui_event list" where
  "render_amenities lib df =
     except_all ''Amenities analysis unavailable''
       (if has_column df ''amenities''
        then (case top_amenities lib df of
                Inl e \<Rightarrow> ([UiHeader amenities_header], Some e)
              | Inr amenities \<Rightarrow>
                  draw lib [UiHeader amenities_header] (px_chart lib ''bar'' amenities amenities_kwargs))
        else ([], None))"

text \<open>\<open>render_geo\<close>.\<close>

definition geo_kwargs :: "(string \<times> pyval) list" where
  "geo_kwargs =
     [(''lat'', VStr ''lat''), (''lon'', VStr ''lon''), (''color'', VStr ''price''),
      (''size'', VStr ''accommodates''), (''zoom'', VInt 10),
      (''mapbox_style'', VStr ''open-street-map'')]"

definition render_geo :: "'fig charting \<Rightarrow> dataframe \<Rightarrow> 'fig ui_event list" where
  "render_geo lib df =
     except_all ''Map unavailable''
       (if has_column df ''lat'' \<and> has_column df ''lon''
        then (case dropna lib df [''lat'', ''lon''] of
                Inl e \<Rightarrow> ([UiHeader geo_header], Some e)
              | Inr located \<Rightarrow>
                  draw lib [UiHeader geo_header] (px_chart lib ''scatter_mapbox'' located geo_kwargs))
        else ([], None))"

section \<open>dynamic\_dashboard\_df: the chosen chart\<close>

text \<open>The chart types the select box offers, and the figure built for each from the
  chosen fields (a field that is not chosen is \<open>None\<close>).\<close>

datatype chart_type = Scatter | Bar | Line | Histogram | Box | Pie

fun build_chart ::
  "'fig charting \<Rightarrow> chart_type \<Rightarrow> dataframe \<Rightarrow> pyval \<Rightarrow> pyval \<Rightarrow> pyval \<Rightarrow> pyval \<Rightarrow> py_exn + 'fig" where
  "build_chart lib Scatter df x_axis y_axis color_field size_field =
     px_chart lib ''scatter'' df
       [(''x'', x_axis), (''y'', y_axis), (''color'', color_field), (''size'', size_field)]"
| "build_chart lib Bar df x_axis y_axis color_field size_field =
     px_chart lib ''bar'' df [(''x'', x_axis), (''y'', y_axis), (''color'', color_field)]"
| "build_chart lib Line df x_axis y_axis color_field size_field =
     px_chart lib ''line'' df [(''x'', x_axis), (''y'', y_axis), (''color'', color_field)]"
| "build_chart lib Histogram df x_axis y_axis color_field size_field =
     px_chart lib ''histogram'' df [(''x'', x_axis), (''color'', color_field)]"
| "build_chart lib Box df x_axis y_axis color_field size_field =
     px_chart lib ''box'' df [(''x'', x_axis), (''y'', y_axis), (''color'', color_field)]"
| "build_chart lib Pie df x_axis y_axis color_field size_field =
     px_chart lib ''pie'' df [(''names'', x_axis), (''values'', y_axis)]"

text \<open>The \<open>try\<close> of the custom visualization, with its handler
  \<open>except Exception as e: st.warning(f"Couldn't render chart: {str(e)}")\<close>.\<close>

definition render_custom_chart ::
  "'fig charting \<Rightarrow> chart_type \<Rightarrow> dataframe \<Rightarrow> pyval \<Rightarrow> pyval \<Rightarrow> pyval \<Rightarrow> pyval
     \<Rightarrow> 'fig ui_event list \<times> py_exn option" where
  "render_custom_chart lib kind df x_axis y_axis color_field size_field =
     except_Exception UiWarning (''Couldn'' @ [CHR 0x27] @ ''t render chart: '')
       (draw lib [] (build_chart lib kind df x_axis y_axis color_field size_field))"

section \<open>The flattened entries, as the specification words them\<close>

text \<open>One level of merging, entry by entry: a dict value gives one entry for each of its
  immediate sub-keys, under the joined key; any other value gives one entry under its own
  key. \<open>conv\<close> is the conversion applied to the stored value. The result lists the entries in
  the document's iteration order, before any two of them meet under one key.\<close>

definition merged_entries :: "(pyval \<Rightarrow> pyval) \<Rightarrow> string \<times> pyval \<Rightarrow> doc" where
  "merged_entries conv e =
     (if is_dict (snd e)
      then map (\<lambda>(sub_key, sub_value). (join_key (fst e) sub_key, conv sub_value)) (dict_items (snd e))
      else [(fst e, conv (snd e))])"

definition one_level_merge :: "(pyval \<Rightarrow> pyval) \<Rightarrow> doc \<Rightarrow> doc" where
  "one_level_merge conv d = concat (map (merged_entries conv) d)"


text \<open>The same list for the recursive flattener: a dict value gives the entries of its
  own flattening, under the extended parent key.\<close>

function entries_mongo :: "doc \<Rightarrow> string \<Rightarrow> string \<Rightarrow> doc" where
  "entries_mongo [] parent_key sep = []"
| "entries_mongo ((k, v) # rest) parent_key sep =
     (if is_dict v then entries_mongo (dict_items v) (new_key parent_key sep k) sep
      else [(new_key parent_key sep k, v)]) @ entries_mongo rest parent_key sep"
  by pat_completeness auto
termination
proof (relation "measure (\<lambda>(d, pk, sep). size_list (size_prod (\<lambda>x. 0) size) d)")
  fix k :: string and v :: pyval and rest :: doc
  assume "is_dict v"
  then obtain d where "v = VDict d" by (cases v) auto
  then show "((dict_items v, new_key parent_key sep k, sep), (k, v) # rest, parent_key, sep)
      \<in> measure (\<lambda>(d, pk, sep). size_list (size_prod (\<lambda>x. 0) size) d)"
    for parent_key sep
    by simp
qed auto

text \<open>Documents with no dict among their values, and documents whose dict values hold no
  dict in turn (at most one level of nesting).\<close>

definition no_dict_values :: "doc \<Rightarrow> bool" where
  "no_dict_values d = list_all (\<lambda>p. \<not> is_dict (snd p)) d"

definition one_level_nested :: "doc \<Rightarrow> bool" where
  "one_level_nested d = list_all (\<lambda>p. no_dict_values (dict_items (snd p))) d"


section \<open>The configured defaults, as the specification words them\<close>

text \<open>0.0 for a float target, 0 for an int target, false for the bool target.\<close>

fun configured_default :: "dtype \<Rightarrow> pyval" where
  "configured_default PyFloat = VFloat (Fin 0)"
| "configured_default PyInt = VInt 0"
| "configured_default PyBool = VBool False"

text \<open>What one round stores in its destination column, from the frame it starts on.\<close>

definition coerced :: "(string \<Rightarrow> pynum option) \<Rightarrow> dataframe \<Rightarrow> string \<Rightarrow> dtype \<Rightarrow> py_exn + pyval list" where
  "coerced parse df src dt =
     (case get_column df src of
        Some cells \<Rightarrow> astype dt (map (fillna DEFAULT_NUMERIC \<circ> to_numeric_cell parse) cells)
      | None \<Rightarrow> (case py_cast dt DEFAULT_NUMERIC of Inl e \<Rightarrow> Inl e | Inr v \<Rightarrow> Inr (replicate (nrows df) v)))"


section \<open>Instances and descriptions used by the claims about the store\<close>

text \<open>One instance of the store parameters: \<open>$addFields\<close> stores the given values,
  \<open>$project\<close> keeps the listed fields, \<open>$sample\<close> takes the documents in order, and values
  are the same element of a set when they are equal.\<close>

definition plain_store :: store where
  "plain_store =
     \<lparr>add_fields = (\<lambda>spec d. Inr (dict_update d spec)),
      project = (\<lambda>spec d. Inr (filter (\<lambda>p. dict_get spec (fst p) = Some (VInt 1)) d)),
      sample = (\<lambda>n docs. docs),
      nested_path = (\<lambda>path d. None),
      other_accumulator = (\<lambda>operator arg docs. VNone),
      value_key = (\<lambda>v. v)\<rparr>"

text \<open>The accumulator each metric kind stands for, under the key it is stored at.\<close>

definition group_entry :: "string \<Rightarrow> string \<Rightarrow> string \<times> pyval" where
  "group_entry field metric =
     (if metric = ''Count'' then (''count'', VDict [(''$sum'', VInt 1)])
      else if metric = ''Sum'' then (''sum'', VDict [(''$sum'', VStr (''$'' @ field))])
      else if metric = ''Average'' then (''average'', VDict [(''$avg'', VStr (''$'' @ field))])
      else if metric = ''Max'' then (''max'', VDict [(''$max'', VStr (''$'' @ field))])
      else if metric = ''Min'' then (''min'', VDict [(''$min'', VStr (''$'' @ field))])
      else (''unique count'', VDict [(''$addToSet'', VStr (''$'' @ field))]))"

text \<open>One instance of the library parameters: every call raises the given exception.\<close>

definition failing_charting :: "py_exn \<Rightarrow> unit charting" where
  "failing_charting e =
     \<lparr>mean_text = (\<lambda>df column format. Inl e),
      px_chart = (\<lambda>kind df kwargs. Inl e),
      review_figure = (\<lambda>df cols. Inl e),
      top_amenities = (\<lambda>df. Inl e),
      dropna = (\<lambda>df subset. Inl e),
      plotly_chart = (\<lambda>fig. Some e)\<rparr>"

text \<open>The chart-drawing of a \<open>try\<close> body raises \<open>e\<close>: either building the figure raises
  it, or the figure is built and showing it raises it.\<close>

definition drawing_raises :: "'fig charting \<Rightarrow> py_exn + 'fig \<Rightarrow> py_exn \<Rightarrow> bool" where
  "drawing_raises lib built e =
     (built = Inl e \<or> (\<exists>fig. built = Inr fig \<and> plotly_chart lib fig = Some e))"

section \<open>Properties of the dict operations\<close>

lemma map_of_dict_set: "map_of (dict_set d k v) = (map_of d)(k \<mapsto> v)"
  by (induction d) (auto simp: fun_eq_iff)

lemma keys_dict_set:
  "map fst (dict_set d k v) = (if k \<in> fst ` set d then map fst d else map fst d @ [k])"
  by (induction d) (force+)

lemma distinct_dict_set: "distinct (map fst d) \<Longrightarrow> distinct (map fst (dict_set d k v))"
  by (simp add: keys_dict_set)

lemma dict_set_fresh: "k \<notin> fst ` set d \<Longrightarrow> dict_set d k v = d @ [(k, v)]"
  by (induction d) auto

lemma set_dict_set: "set (dict_set d k v) \<subseteq> insert (k, v) (set d)"
  by (induction d) (auto split: if_splits)

lemma map_of_dict_update: "map_of (dict_update d es) = map_of d ++ map_of (rev es)"
  by (induction d es rule: dict_update.induct) (auto simp: map_of_dict_set fun_eq_iff map_add_def split: option.splits)

lemma distinct_dict_update: "distinct (map fst d) \<Longrightarrow> distinct (map fst (dict_update d es))"
  by (induction d es rule: dict_update.induct) (auto simp: distinct_dict_set)

lemma set_dict_update: "set (dict_update d es) \<subseteq> set d \<union> set es"
proof (induction d es rule: dict_update.induct)
  case (2 d k v es)
  then show ?case using set_dict_set [of d k v] by auto
qed simp

lemma dict_update_fresh:
  "distinct (map fst (d @ es)) \<Longrightarrow> dict_update d es = d @ es"
proof (induction d es rule: dict_update.induct)
  case (2 d k v es)
  have "dict_set d k v = d @ [(k, v)]" using 2(2) by (intro dict_set_fresh) auto
  then show ?case using 2 by auto
qed simp

lemma dict_update_append: "dict_update d (xs @ ys) = dict_update (dict_update d xs) ys"
  by (induction d xs rule: dict_update.induct) auto

lemma flatten_sub_update:
  "flatten_sub key d flat = dict_update flat (map (\<lambda>(sk, sv). (join_key key sk, safe_convert sv)) d)"
  by (induction key d flat rule: flatten_sub.induct) auto

lemma flatten_items_update:
  "flatten_items d flat = dict_update flat (one_level_merge safe_convert d)"
proof (induction d flat rule: flatten_items.induct)
  case (2 key "value" rest flat)
  then show ?case
    by (cases "value") (simp_all add: one_level_merge_def merged_entries_def dict_update_append flatten_sub_update)
qed (simp add: one_level_merge_def)

lemma flatten_sub_df_update:
  "flatten_sub_df key d flat = dict_update flat (map (\<lambda>(sk, sv). (join_key key sk, sv)) d)"
  by (induction key d flat rule: flatten_sub_df.induct) auto

lemma flatten_items_df_update:
  "flatten_items_df d flat = dict_update flat (one_level_merge (\<lambda>v. v) d)"
proof (induction d flat rule: flatten_items_df.induct)
  case (2 key "value" rest flat)
  then show ?case
    by (cases "value") (simp_all add: one_level_merge_def merged_entries_def dict_update_append flatten_sub_df_update)
qed (simp add: one_level_merge_def)

section \<open>Properties of the flatteners\<close>

lemma distinct_flatten_loop_mongo:
  "distinct (map fst items) \<Longrightarrow> distinct (map fst (flatten_loop_mongo d pk sep items))"
  by (induction d pk sep items rule: flatten_loop_mongo.induct)
     (simp_all add: distinct_dict_set distinct_dict_update)

lemma map_of_rev_distinct: "distinct (map fst xs) \<Longrightarrow> map_of (rev xs) = map_of xs"
proof (induction xs)
  case (Cons p xs)
  then have "fst p \<notin> dom (map_of xs)" by (simp add: dom_map_of_conv_image_fst)
  then have "map_of xs (fst p) = None" by blast
  with Cons show ?case
    by (cases p) (auto simp: fun_eq_iff map_add_def split: option.splits)
qed simp

lemma map_of_flatten_loop_mongo:
  "map_of (flatten_loop_mongo d pk sep items) = map_of items ++ map_of (rev (entries_mongo d pk sep))"
proof (induction d pk sep items rule: flatten_loop_mongo.induct)
  case (2 k v rest pk sep items)
  show ?case
  proof (cases "is_dict v")
    case True
    have "distinct (map fst (flatten_loop_mongo (dict_items v) (new_key pk sep k) sep []))"
      by (rule distinct_flatten_loop_mongo) simp
    then have "map_of (rev (flatten_loop_mongo (dict_items v) (new_key pk sep k) sep []))
        = map_of (flatten_loop_mongo (dict_items v) (new_key pk sep k) sep [])"
      by (rule map_of_rev_distinct)
    with 2 True show ?thesis by (simp add: map_of_dict_update)
  next
    case False
    with 2 show ?thesis by (simp add: map_of_dict_set map_add_upd_left fun_eq_iff map_add_def split: option.splits)
  qed
qed simp

lemma no_dict_dict_set:
  "no_dict_values d \<Longrightarrow> \<not> is_dict v \<Longrightarrow> no_dict_values (dict_set d k v)"
  using set_dict_set [of d k v] by (auto simp: no_dict_values_def list_all_iff)

lemma no_dict_dict_update:
  "no_dict_values d \<Longrightarrow> no_dict_values es \<Longrightarrow> no_dict_values (dict_update d es)"
  using set_dict_update [of d es] by (auto simp: no_dict_values_def list_all_iff)

lemma no_dict_flatten_loop_mongo:
  "no_dict_values items \<Longrightarrow> no_dict_values (flatten_loop_mongo d pk sep items)"
proof (induction d pk sep items rule: flatten_loop_mongo.induct)
  case (2 k v rest pk sep items)
  show ?case
  proof (cases "is_dict v")
    case True
    have "no_dict_values (flatten_loop_mongo (dict_items v) (new_key pk sep k) sep [])"
      using 2(1) True by (simp add: no_dict_values_def)
    with 2 True show ?thesis by (simp add: no_dict_dict_update)
  next
    case False
    with 2 show ?thesis by (simp add: no_dict_dict_set)
  qed
qed simp

lemma flatten_loop_mongo_flat:
  "no_dict_values ps \<Longrightarrow> flatten_loop_mongo ps [] sep items = dict_update items ps"
  by (induction ps arbitrary: items) (auto simp: no_dict_values_def new_key_def)

lemma safe_flatten_mongo0_idem: "safe_flatten_mongo0 (safe_flatten_mongo0 d) = safe_flatten_mongo0 d"
proof -
  let ?d' = "flatten_loop_mongo d [] ''_'' []"
  have nd: "no_dict_values ?d'" by (rule no_dict_flatten_loop_mongo) (simp add: no_dict_values_def)
  have di: "distinct (map fst ?d')" by (rule distinct_flatten_loop_mongo) simp
  have "flatten_loop_mongo ?d' [] ''_'' [] = dict_update [] ?d'"
    using nd by (rule flatten_loop_mongo_flat)
  also have "\<dots> = ?d'" using di dict_update_fresh [of "[]" ?d'] by simp
  finally show ?thesis by (simp add: safe_flatten_mongo0_def safe_flatten_mongo_def)
qed

lemma safe_convert_idem: "safe_convert (safe_convert v) = safe_convert v"
  by (cases v) (auto split: option.splits)

lemma safe_convert_not_dict: "\<not> is_dict v \<Longrightarrow> \<not> is_dict (safe_convert v)"
  by (cases v) (auto split: option.splits)

lemma one_level_merge_flat:
  "no_dict_values d \<Longrightarrow> one_level_merge conv d = map (\<lambda>p. (fst p, conv (snd p))) d"
  by (induction d) (auto simp: one_level_merge_def merged_entries_def no_dict_values_def)

lemma safe_flatten_flat:
  assumes "distinct (map fst d)" "no_dict_values d"
  shows "safe_flatten d = map (\<lambda>p. (fst p, safe_convert (snd p))) d"
proof -
  have "distinct (map fst ([] @ map (\<lambda>p. (fst p, safe_convert (snd p))) d))"
    using assms(1) by (simp add: comp_def)
  then show ?thesis
    using assms(2) dict_update_fresh [of "[]" "map (\<lambda>p. (fst p, safe_convert (snd p))) d"]
    by (simp add: safe_flatten_def flatten_items_update one_level_merge_flat)
qed

lemma safe_flatten_df_flat:
  assumes "distinct (map fst d)" "no_dict_values d"
  shows "safe_flatten_df d = d"
proof -
  have "distinct (map fst ([] @ d))" using assms(1) by simp
  then show ?thesis
    using assms(2) dict_update_fresh [of "[]" d]
    by (simp add: safe_flatten_df_def flatten_items_df_update one_level_merge_flat)
qed

lemma merged_values:
  assumes "one_level_nested d" "(K, w) \<in> set (one_level_merge conv d)"
  shows "\<exists>x. \<not> is_dict x \<and> w = conv x"
proof -
  from assms(2) obtain e where e: "e \<in> set d" "(K, w) \<in> set (merged_entries conv e)"
    by (auto simp: one_level_merge_def)
  show ?thesis
  proof (cases "is_dict (snd e)")
    case True
    with e(2) obtain sk sv where s: "(sk, sv) \<in> set (dict_items (snd e))" "w = conv sv"
      by (auto simp: merged_entries_def)
    from assms(1) e(1) have "no_dict_values (dict_items (snd e))"
      by (auto simp: one_level_nested_def list_all_iff)
    with s(1) have "\<not> is_dict sv" by (auto simp: no_dict_values_def list_all_iff)
    with s(2) show ?thesis by blast
  next
    case False
    with e(2) show ?thesis by (auto simp: merged_entries_def)
  qed
qed

lemma safe_flatten_idem:
  assumes "one_level_nested d"
  shows "safe_flatten (safe_flatten d) = safe_flatten d"
proof -
  let ?d' = "safe_flatten d"
  have sub: "set ?d' \<subseteq> set (one_level_merge safe_convert d)"
    using set_dict_update [of "[]" "one_level_merge safe_convert d"]
    by (simp add: safe_flatten_def flatten_items_update)
  have vals: "\<not> is_dict (snd p) \<and> safe_convert (snd p) = snd p" if "p \<in> set ?d'" for p
  proof -
    from that sub have "(fst p, snd p) \<in> set (one_level_merge safe_convert d)" by auto
    from merged_values [OF assms this] obtain x where "\<not> is_dict x" "snd p = safe_convert x"
      by blast
    then show ?thesis by (simp add: safe_convert_idem safe_convert_not_dict)
  qed
  have di: "distinct (map fst ?d')"
    by (simp add: safe_flatten_def flatten_items_update distinct_dict_update)
  have nd: "no_dict_values ?d'" using vals by (simp add: no_dict_values_def list_all_iff)
  have "safe_flatten ?d' = map (\<lambda>p. (fst p, safe_convert (snd p))) ?d'"
    using di nd by (rule safe_flatten_flat)
  also have "\<dots> = ?d'" using vals by (simp add: map_idI)
  finally show ?thesis .
qed

lemma safe_flatten_df_idem:
  assumes "one_level_nested d"
  shows "safe_flatten_df (safe_flatten_df d) = safe_flatten_df d"
proof -
  let ?d' = "safe_flatten_df d"
  have sub: "set ?d' \<subseteq> set (one_level_merge (\<lambda>v. v) d)"
    using set_dict_update [of "[]" "one_level_merge (\<lambda>v. v) d"]
    by (simp add: safe_flatten_df_def flatten_items_df_update)
  have vals: "\<not> is_dict (snd p)" if "p \<in> set ?d'" for p
  proof -
    from that sub have "(fst p, snd p) \<in> set (one_level_merge (\<lambda>v. v) d)" by auto
    from merged_values [OF assms this] show ?thesis by auto
  qed
  have di: "distinct (map fst ?d')"
    by (simp add: safe_flatten_df_def flatten_items_df_update distinct_dict_update)
  have nd: "no_dict_values ?d'" using vals by (simp add: no_dict_values_def list_all_iff)
  show ?thesis using di nd by (rule safe_flatten_df_flat)
qed

text \<open>The recursive flattener builds its row from the entries of every level.\<close>

lemma dict_set_twice: "dict_set (dict_set c k v') k v = dict_set c k v"
  by (induction c) auto

lemma keys_set_dict_set: "fst ` set (dict_set d k v) = insert k (fst ` set d)"
proof -
  have "set (map fst (dict_set d k v)) = insert k (set (map fst d))"
    by (auto simp: keys_dict_set)
  then show ?thesis by simp
qed

lemma dict_set_commute:
  "k \<in> fst ` set c \<Longrightarrow> k \<noteq> k1 \<Longrightarrow>
   dict_set (dict_set c k1 v1) k v = dict_set (dict_set c k v) k1 v1"
proof (induction c)
  case (Cons p c)
  obtain k0 v0 where p: "p = (k0, v0)" by (cases p) auto
  show ?case
  proof (cases "k0 = k \<or> k0 = k1")
    case True
    with Cons.prems(2) p show ?thesis by auto
  next
    case False
    with Cons.prems(1) p have "k \<in> fst ` set c" by auto
    from Cons.IH [OF this Cons.prems(2)] False p show ?thesis by simp
  qed
qed simp

lemma dict_set_keeps_key: "k \<in> fst ` set c \<Longrightarrow> k \<in> fst ` set (dict_set c k1 v1)"
  by (simp add: keys_set_dict_set)

lemma dict_set_after_update:
  "k \<in> fst ` set c \<Longrightarrow> k \<notin> fst ` set bs \<Longrightarrow>
   dict_set (dict_update c bs) k v = dict_update (dict_set c k v) bs"
proof (induction bs arbitrary: c)
  case (Cons b bs)
  obtain k1 v1 where b: "b = (k1, v1)" by (cases b) auto
  from Cons.prems(2) b have ne: "k \<noteq> k1" and nin: "k \<notin> fst ` set bs" by auto
  have "dict_set (dict_update (dict_set c k1 v1) bs) k v
      = dict_update (dict_set (dict_set c k1 v1) k v) bs"
    using Cons.prems(1) nin by (intro Cons.IH dict_set_keeps_key)
  also have "dict_set (dict_set c k1 v1) k v = dict_set (dict_set c k v) k1 v1"
    using Cons.prems(1) ne by (rule dict_set_commute)
  finally show ?case by (simp add: b)
qed simp

lemma dict_set_has_key: "k \<in> fst ` set (dict_set a k v)"
  by (simp add: keys_set_dict_set)

lemma dict_update_of_set:
  "distinct (map fst b) \<Longrightarrow> dict_update a (dict_set b k v) = dict_set (dict_update a b) k v"
proof (induction b arbitrary: a)
  case Nil
  show ?case by simp
next
  case (Cons p b)
  obtain k1 v1 where p: "p = (k1, v1)" by (cases p) auto
  show ?case
  proof (cases "k1 = k")
    case True
    with Cons.prems p have nin: "k \<notin> fst ` set b" by auto
    have "dict_set (dict_update (dict_set a k v1) b) k v
        = dict_update (dict_set (dict_set a k v1) k v) b"
      using nin by (intro dict_set_after_update dict_set_has_key)
    then show ?thesis using True p by (simp add: dict_set_twice)
  next
    case False
    from Cons.prems have "distinct (map fst b)" by simp
    from Cons.IH [OF this, of "dict_set a k1 v1"] False p show ?thesis by simp
  qed
qed

lemma dict_update_nested:
  "distinct (map fst b) \<Longrightarrow> dict_update a (dict_update b es) = dict_update (dict_update a b) es"
proof (induction es arbitrary: b)
  case (Cons e es)
  obtain k v where e: "e = (k, v)" by (cases e) auto
  from Cons.prems have "distinct (map fst (dict_set b k v))" by (rule distinct_dict_set)
  from Cons.IH [OF this] Cons.prems show ?case
    by (simp add: e dict_update_of_set)
qed simp

lemma flatten_loop_mongo_update:
  "flatten_loop_mongo d pk sep items = dict_update items (entries_mongo d pk sep)"
proof (induction d pk sep items rule: flatten_loop_mongo.induct)
  case (2 k v rest pk sep items)
  show ?case
  proof (cases "is_dict v")
    case True
    let ?sub = "entries_mongo (dict_items v) (new_key pk sep k) sep"
    have "dict_update items (dict_update [] ?sub) = dict_update items ?sub"
      using dict_update_nested [of "[]" items ?sub] by simp
    with 2 True show ?thesis by (simp add: dict_update_append)
  next
    case False
    with 2 show ?thesis by simp
  qed
qed simp

section \<open>Claims about flattening\<close>

lemma safe_flatten_mongo0_flat:
  assumes "distinct (map fst d)" "no_dict_values d"
  shows "safe_flatten_mongo0 d = d"
  using assms dict_update_fresh [of "[]" d]
  by (simp add: safe_flatten_mongo0_def safe_flatten_mongo_def flatten_loop_mongo_flat)

text \<open>
  Claim C2. For every document whose dict values hold no dict in turn, each of the three
  flatteners gives the same row when applied a second time; and on a document that is
  already flat (distinct keys, no dict value) the two plain flatteners return the document
  itself, the one of airbnb\_analytics the document with \<open>safe_convert\<close> applied to every
  value.
\<close>

theorem flatten_idempotent_one_level:
  assumes "one_level_nested d"
  shows "safe_flatten (safe_flatten d) = safe_flatten d
       \<and> safe_flatten_df (safe_flatten_df d) = safe_flatten_df d
       \<and> safe_flatten_mongo0 (safe_flatten_mongo0 d) = safe_flatten_mongo0 d
       \<and> (distinct (map fst d) \<and> no_dict_values d \<longrightarrow>
            safe_flatten d = map (\<lambda>p. (fst p, safe_convert (snd p))) d
          \<and> safe_flatten_df d = d
          \<and> safe_flatten_mongo0 d = d)"
  using assms
  by (simp add: safe_flatten_idem safe_flatten_df_idem safe_flatten_mongo0_idem
        safe_flatten_flat safe_flatten_df_flat safe_flatten_mongo0_flat)

text \<open>The theorem at a nested listing and at a flat one.\<close>

theorem flatten_idempotent_one_level_witness:
  "one_level_nested [(''price'', VDict [(''$numberDecimal'', VDecimal128 (Dec (201 / 2)))]), (''name'', VStr ''Loft'')]
   \<and> safe_flatten (safe_flatten
        [(''price'', VDict [(''$numberDecimal'', VDecimal128 (Dec (201 / 2)))]), (''name'', VStr ''Loft'')])
     = [(''price_$numberDecimal'', VFloat (Fin (201 / 2))), (''name'', VStr ''Loft'')]
   \<and> one_level_nested [(''price'', VDecimal128 (Dec (201 / 2))), (''name'', VStr ''Loft'')]
   \<and> distinct (map fst [(''price'', VDecimal128 (Dec (201 / 2))), (''name'', VStr ''Loft'')])
   \<and> no_dict_values [(''price'', VDecimal128 (Dec (201 / 2))), (''name'', VStr ''Loft'')]
   \<and> safe_flatten [(''price'', VDecimal128 (Dec (201 / 2))), (''name'', VStr ''Loft'')]
     = [(''price'', VFloat (Fin (201 / 2))), (''name'', VStr ''Loft'')]"
proof -
  let ?d = "[(''price'', VDict [(''$numberDecimal'', VDecimal128 (Dec (201 / 2)))]), (''name'', VStr ''Loft'')]"
  let ?e = "[(''price'', VDecimal128 (Dec (201 / 2))), (''name'', VStr ''Loft'')]"
  have h: "one_level_nested ?d" by (simp add: one_level_nested_def no_dict_values_def)
  have g: "one_level_nested ?e" by (simp add: one_level_nested_def no_dict_values_def)
  have f: "distinct (map fst ?e) \<and> no_dict_values ?e" by (simp add: no_dict_values_def)
  have v: "safe_flatten ?d = [(''price_$numberDecimal'', VFloat (Fin (201 / 2))), (''name'', VStr ''Loft'')]"
    by (simp add: safe_flatten_def join_key_def)
  from flatten_idempotent_one_level [OF h] flatten_idempotent_one_level [OF g] h g f v
  show ?thesis by simp
qed

text \<open>
  Claim C9. When several entries of a document produce the same compound key, the row
  holds that key once, with the value of the entry that comes last in iteration order:
  whatever entries \<open>xs\<close> came before \<open>(K, v)\<close>, if none after it produces \<open>K\<close> then the row
  maps \<open>K\<close> to \<open>v\<close>. The flatteners return a plain dict in every case (there is no error
  result), and two different documents can give the same row.
\<close>

theorem flatten_last_entry_wins:
  "(one_level_merge safe_convert d = xs @ (K, v) # ys \<and> K \<notin> fst ` set ys \<longrightarrow>
      dict_get (safe_flatten d) K = Some v)
   \<and> (entries_mongo d parent_key sep = xs @ (K, v) # ys \<and> K \<notin> fst ` set ys \<longrightarrow>
      dict_get (safe_flatten_mongo d parent_key sep) K = Some v)
   \<and> distinct (map fst (safe_flatten d))
   \<and> distinct (map fst (safe_flatten_mongo d parent_key sep))
   \<and> safe_flatten [(''a_b'', VInt 1), (''a'', VDict [(''b'', VInt 2)])]
       = safe_flatten [(''a'', VDict [(''b'', VInt 2)])]
   \<and> safe_flatten_mongo0 [(''a_b'', VInt 1), (''a'', VDict [(''b'', VInt 2)])]
       = safe_flatten_mongo0 [(''a'', VDict [(''b'', VInt 2)])]"
proof -
  have last: "map_of (rev (xs @ (K, v) # ys)) K = Some v" if "K \<notin> fst ` set ys"
    for xs ys :: doc and K v
  proof -
    have "map_of (rev ys) K = None" using that by (simp add: map_of_eq_None_iff)
    then show ?thesis by (simp add: map_add_def)
  qed
  have a: "dict_get (safe_flatten d) K = Some v"
    if "one_level_merge safe_convert d = xs @ (K, v) # ys" "K \<notin> fst ` set ys"
    using that last [OF that(2), of xs v]
    by (simp add: dict_get_def safe_flatten_def flatten_items_update map_of_dict_update)
  have b: "dict_get (safe_flatten_mongo d parent_key sep) K = Some v"
    if "entries_mongo d parent_key sep = xs @ (K, v) # ys" "K \<notin> fst ` set ys"
    using that last [OF that(2), of xs v]
    by (simp add: dict_get_def safe_flatten_mongo_def map_of_flatten_loop_mongo)
  have c: "distinct (map fst (safe_flatten d))"
    by (simp add: safe_flatten_def flatten_items_update distinct_dict_update)
  have e: "distinct (map fst (safe_flatten_mongo d parent_key sep))"
    by (simp add: safe_flatten_mongo_def distinct_flatten_loop_mongo)
  have f: "safe_flatten [(''a_b'', VInt 1), (''a'', VDict [(''b'', VInt 2)])]
       = safe_flatten [(''a'', VDict [(''b'', VInt 2)])]"
    by (simp add: safe_flatten_def join_key_def)
  have g: "safe_flatten_mongo0 [(''a_b'', VInt 1), (''a'', VDict [(''b'', VInt 2)])]
       = safe_flatten_mongo0 [(''a'', VDict [(''b'', VInt 2)])]"
    by (simp add: safe_flatten_mongo0_def safe_flatten_mongo_def new_key_def)
  from a b c e f g show ?thesis by blast
qed

text \<open>The theorem at the colliding keys \<open>a_b\<close> and \<open>a\<close>/\<open>b\<close>, in both orders.\<close>

theorem flatten_last_entry_wins_witness:
  "dict_get (safe_flatten [(''a_b'', VInt 1), (''a'', VDict [(''b'', VInt 2)])]) ''a_b'' = Some (VInt 2)
   \<and> dict_get (safe_flatten [(''a'', VDict [(''b'', VInt 2)]), (''a_b'', VInt 1)]) ''a_b'' = Some (VInt 1)
   \<and> dict_get (safe_flatten_mongo [(''a_b'', VInt 1), (''a'', VDict [(''b'', VInt 2)])] [] ''_'') ''a_b''
       = Some (VInt 2)"
proof -
  have m1: "one_level_merge safe_convert [(''a_b'', VInt 1), (''a'', VDict [(''b'', VInt 2)])]
      = [(''a_b'', VInt 1)] @ (''a_b'', VInt 2) # [] \<and> ''a_b'' \<notin> fst ` set ([] :: doc)"
    by (simp add: one_level_merge_def merged_entries_def join_key_def)
  have m2: "one_level_merge safe_convert [(''a'', VDict [(''b'', VInt 2)]), (''a_b'', VInt 1)]
      = [(''a_b'', VInt 2)] @ (''a_b'', VInt 1) # [] \<and> ''a_b'' \<notin> fst ` set ([] :: doc)"
    by (simp add: one_level_merge_def merged_entries_def join_key_def)
  have m3: "entries_mongo [(''a_b'', VInt 1), (''a'', VDict [(''b'', VInt 2)])] [] ''_''
      = [(''a_b'', VInt 1)] @ (''a_b'', VInt 2) # [] \<and> ''a_b'' \<notin> fst ` set ([] :: doc)"
    by (simp add: new_key_def)
  from m1 m2 m3
    flatten_last_entry_wins [of "[(''a_b'', VInt 1), (''a'', VDict [(''b'', VInt 2)])]"
      "[(''a_b'', VInt 1)]" "''a_b''" "VInt 2" "[]" "[]" "''_''"]
    flatten_last_entry_wins [of "[(''a'', VDict [(''b'', VInt 2)]), (''a_b'', VInt 1)]"
      "[(''a_b'', VInt 2)]" "''a_b''" "VInt 1" "[]"]
  show ?thesis by blast
qed

text \<open>
  Claim C6, as stated, fails for the flattener of dynamic\_dashboard\_mongo: a dict inside a
  dict is collapsed as well, not passed through.
\<close>

theorem flatten_mongo_collapses_every_level:
  "safe_flatten_mongo0 [(''a'', VDict [(''b'', VDict [(''c'', VInt 1)])])] = [(''a_b_c'', VInt 1)]
   \<and> safe_flatten_mongo0 [(''a'', VDict [(''b'', VDict [(''c'', VInt 1)])])]
       \<noteq> [(''a_b'', VDict [(''c'', VInt 1)])]"
  by (simp add: safe_flatten_mongo0_def safe_flatten_mongo_def new_key_def)

text \<open>
  Claim C6, amended. The flatteners of airbnb\_analytics and dynamic\_dashboard\_df merge
  exactly one level: the row is the dict built from the one-level entries, a dict found
  inside a dict value is stored unchanged under the joined key, and every other value is
  stored under its own key (through \<open>safe_convert\<close> in airbnb\_analytics, which changes
  \<open>Decimal128\<close> values only). The recursive flattener of dynamic\_dashboard\_mongo collapses
  every level: for every document, parent key and separator its row is the dict built
  from the entries of the recursive flattening, in which a value that is not a dict, at
  any depth, stands under the keys along its path joined by the separator; the row maps
  each such key to the value of the last entry that produces it, and neither the entries
  nor the row hold a dict. A value two dicts deep is stored under the three keys joined.
\<close>

theorem flatten_one_level_by_variant:
  "safe_flatten d = dict_update [] (one_level_merge safe_convert d)
   \<and> safe_flatten_df d = dict_update [] (one_level_merge (\<lambda>v. v) d)
   \<and> safe_convert (VDict inner) = VDict inner
   \<and> safe_flatten [(k, VDict [(sub_key, VDict inner)])] = [(join_key k sub_key, VDict inner)]
   \<and> safe_flatten_df [(k, VDict [(sub_key, VDict inner)])] = [(join_key k sub_key, VDict inner)]
   \<and> no_dict_values (safe_flatten_mongo d parent_key sep)
   \<and> safe_flatten_mongo d parent_key sep = dict_update [] (entries_mongo d parent_key sep)
   \<and> map_of (safe_flatten_mongo d parent_key sep) = map_of (rev (entries_mongo d parent_key sep))
   \<and> no_dict_values (entries_mongo d parent_key sep)
   \<and> safe_flatten_mongo [(k, VDict [(sub_key, VDict [(leaf, VInt n)])])] parent_key sep
       = [(new_key (new_key (new_key parent_key sep k) sep sub_key) sep leaf, VInt n)]"
proof -
  have a: "no_dict_values (safe_flatten_mongo d parent_key sep)"
    unfolding safe_flatten_mongo_def
    by (rule no_dict_flatten_loop_mongo) (simp add: no_dict_values_def)
  have b: "safe_flatten_mongo d parent_key sep = dict_update [] (entries_mongo d parent_key sep)"
    by (simp add: safe_flatten_mongo_def flatten_loop_mongo_update)
  have c: "map_of (safe_flatten_mongo d parent_key sep) = map_of (rev (entries_mongo d parent_key sep))"
    by (simp add: safe_flatten_mongo_def map_of_flatten_loop_mongo)
  have e: "no_dict_values (entries_mongo d parent_key sep)"
    by (induction d parent_key sep rule: entries_mongo.induct)
       (simp_all add: no_dict_values_def)
  have f: "safe_flatten_mongo [(k, VDict [(sub_key, VDict [(leaf, VInt n)])])] parent_key sep
       = [(new_key (new_key (new_key parent_key sep k) sep sub_key) sep leaf, VInt n)]"
    by (simp add: safe_flatten_mongo_def)
  from a b c e f show ?thesis
    by (simp add: safe_flatten_def flatten_items_update safe_flatten_df_def flatten_items_df_update
          one_level_merge_def merged_entries_def)
qed

section \<open>Claims about the tabular coercion\<close>

lemma get_set_column_same: "get_column (set_column df c xs) c = Some xs"
  by (simp add: get_column_def set_column_def dict_get_def map_of_dict_set)

lemma get_set_column_other: "c' \<noteq> c \<Longrightarrow> get_column (set_column df c xs) c' = get_column df c'"
  by (simp add: get_column_def set_column_def dict_get_def map_of_dict_set)

lemma nrows_set_column: "nrows (set_column df c xs) = nrows df"
  by (simp add: set_column_def)

lemma has_column_get: "has_column df c \<longleftrightarrow> get_column df c \<noteq> None"
  by (simp add: has_column_def get_column_def dict_has_def dict_get_def map_of_eq_None_iff)

lemma coerce_column_result:
  assumes "coerce_column parse df (src, dest, dt) = Inr df'"
  shows "\<exists>vs. coerced parse df src dt = Inr vs \<and> df' = set_column df dest vs"
  using assms
  by (auto simp: coerce_column_def coerced_def split: option.splits sum.splits)

lemma coerce_columns_other:
  "coerce_columns parse cfg df = Inr df' \<Longrightarrow> c \<notin> set (map (fst \<circ> snd) cfg) \<Longrightarrow>
   get_column df' c = get_column df c \<and> nrows df' = nrows df"
proof (induction cfg arbitrary: df)
  case (Cons a cfg)
  obtain src dest dt where a: "a = (src, dest, dt)" by (cases a) auto
  from Cons.prems(1) obtain df1 where
    s: "coerce_column parse df (src, dest, dt) = Inr df1" "coerce_columns parse cfg df1 = Inr df'"
    by (auto simp: a split: sum.splits)
  from coerce_column_result [OF s(1)] obtain vs where "df1 = set_column df dest vs" by blast
  moreover have "c \<noteq> dest" using Cons.prems(2) a by auto
  ultimately have "get_column df1 c = get_column df c \<and> nrows df1 = nrows df"
    by (simp add: get_set_column_other nrows_set_column)
  moreover have "get_column df' c = get_column df1 c \<and> nrows df' = nrows df1"
    using Cons.IH [OF s(2)] Cons.prems(2) by simp
  ultimately show ?case by simp
qed simp

lemma coerce_columns_dest:
  assumes "coerce_columns parse cfg df = Inr df'"
    and "distinct (map (fst \<circ> snd) cfg)"
    and "set (map fst cfg) \<inter> set (map (fst \<circ> snd) cfg) = {}"
    and "(src, dest, dt) \<in> set cfg"
  shows "\<exists>vs. coerced parse df src dt = Inr vs \<and> get_column df' dest = Some vs"
  using assms
proof (induction cfg arbitrary: df)
  case (Cons a cfg)
  obtain src1 dest1 dt1 where a: "a = (src1, dest1, dt1)" by (cases a) auto
  from Cons.prems(1) obtain df1 where
    s: "coerce_column parse df (src1, dest1, dt1) = Inr df1" "coerce_columns parse cfg df1 = Inr df'"
    by (auto simp: a split: sum.splits)
  from coerce_column_result [OF s(1)] obtain vs1 where
    v1: "coerced parse df src1 dt1 = Inr vs1" "df1 = set_column df dest1 vs1" by blast
  show ?case
  proof (cases "(src, dest, dt) = a")
    case True
    then have eq: "src = src1" "dest = dest1" "dt = dt1" using a by auto
    have "dest1 \<notin> set (map (fst \<circ> snd) cfg)" using Cons.prems(2) a by simp
    from coerce_columns_other [OF s(2) this] have "get_column df' dest1 = get_column df1 dest1"
      by simp
    with v1 eq show ?thesis by (simp add: get_set_column_same)
  next
    case False
    with Cons.prems(4) have mem: "(src, dest, dt) \<in> set cfg" by simp
    have d: "distinct (map (fst \<circ> snd) cfg)" using Cons.prems(2) by (simp add: comp_def)
    have i: "set (map fst cfg) \<inter> set (map (fst \<circ> snd) cfg) = {}" using Cons.prems(3) by auto
    from Cons.IH [OF s(2) d i mem] obtain vs where
      vs: "coerced parse df1 src dt = Inr vs" "get_column df' dest = Some vs" by blast
    have "src \<in> set (map fst cfg)" using mem by force
    then have "src \<noteq> dest1" using Cons.prems(3) a by auto
    then have "coerced parse df1 src dt = coerced parse df src dt"
      using v1(2) by (simp add: coerced_def get_set_column_other nrows_set_column
          cong: option.case_cong sum.case_cong)
    with vs show ?thesis by auto
  qed
qed simp

lemma astype_cells:
  "astype dt xs = Inr vs \<Longrightarrow> length vs = length xs \<and> (\<forall>i < length xs. astype_cell dt (xs ! i) = Inr (vs ! i))"
proof (induction xs arbitrary: vs)
  case (Cons x xs)
  then show ?case by (auto split: sum.splits simp: nth_Cons split: nat.splits)
qed simp

lemma astype_default: "astype_cell dt (NFloat DEFAULT_NUMERIC) = Inr (configured_default dt)"
  by (cases dt) (simp_all add: DEFAULT_NUMERIC_def trunc_def)

lemma py_cast_default: "py_cast dt DEFAULT_NUMERIC = Inr (configured_default dt)"
  by (cases dt) (simp_all add: DEFAULT_NUMERIC_def trunc_def)

lemma map_of_tabulate: "map_of (map (\<lambda>k. (k, f k)) ks) k = (if k \<in> set ks then Some (f k) else None)"
  by (induction ks) auto

lemma get_column_DataFrame:
  "get_column (DataFrame data) c = (if has_column (DataFrame data) c then Some (map (\<lambda>row. cell row c) data) else None)"
  by (simp add: get_column_def has_column_def DataFrame_def dict_get_def dict_has_def map_of_tabulate comp_def)

lemma add_coordinates_other:
  "c \<notin> {''coordinates'', ''lat'', ''lon''} \<Longrightarrow> get_column (add_coordinates df) c = get_column df c"
  by (auto simp: add_coordinates_def Let_def get_set_column_other split: option.splits)

lemma numeric_config_shape:
  "distinct (map (fst \<circ> snd) numeric_config)"
  "set (map fst numeric_config) \<inter> set (map (fst \<circ> snd) numeric_config) = {}"
  "set (map (fst \<circ> snd) numeric_config) \<inter> {''coordinates'', ''lat'', ''lon''} = {}"
  by (simp_all add: numeric_config_def)

lemma safe_dataframe_dest:
  assumes "dataframe_body parse data = Inr df" "(src, dest, dt) \<in> set numeric_config"
  shows "\<exists>vs. coerced parse (DataFrame data) src dt = Inr vs \<and> get_column df dest = Some vs"
proof -
  from assms(1) obtain df1 where
    s: "coerce_columns parse numeric_config (DataFrame data) = Inr df1" "df = add_coordinates df1"
    by (auto simp: dataframe_body_def split: sum.splits)
  from coerce_columns_dest [OF s(1) numeric_config_shape(1,2) assms(2)] obtain vs where
    vs: "coerced parse (DataFrame data) src dt = Inr vs" "get_column df1 dest = Some vs" by blast
  have "dest \<in> set (map (fst \<circ> snd) numeric_config)" using assms(2) by force
  then have "dest \<notin> {''coordinates'', ''lat'', ''lon''}" using numeric_config_shape(3) by blast
  then have "get_column df dest = get_column df1 dest" using s(2) by (simp add: add_coordinates_other)
  with vs show ?thesis by simp
qed

text \<open>
  Claim C3, amended. Whenever \<open>safe_dataframe\<close> completes without reporting an error, then
  for every configured triple: if the source column is absent from the table, the
  destination column holds the configured default in every row; and in every row whose
  value in a present source column is not readable as a number, the destination column
  holds the configured default.
\<close>

theorem safe_dataframe_defaults:
  assumes "safe_dataframe parse data = (([] :: 'fig ui_event list), df)"
    and "(src, dest, dt) \<in> set numeric_config"
  shows "(\<not> has_column (DataFrame data) src \<longrightarrow>
            get_column df dest = Some (replicate (length data) (configured_default dt)))
       \<and> (has_column (DataFrame data) src \<and> i < length data
            \<and> to_numeric_cell parse (cell (data ! i) src) = NFloat NaN \<longrightarrow>
            (\<exists>cells. get_column df dest = Some cells \<and> length cells = length data
               \<and> cells ! i = configured_default dt))"
proof -
  from assms(1) have body: "dataframe_body parse data = Inr df"
    by (auto simp: safe_dataframe_def split: sum.splits)
  from safe_dataframe_dest [OF body assms(2)] obtain vs where
    vs: "coerced parse (DataFrame data) src dt = Inr vs" "get_column df dest = Some vs" by blast
  have absent: "get_column df dest = Some (replicate (length data) (configured_default dt))"
    if "\<not> has_column (DataFrame data) src"
  proof -
    from that have "get_column (DataFrame data) src = None" by (simp add: has_column_get)
    with vs(1) have "vs = replicate (length data) (configured_default dt)"
      by (simp add: coerced_def py_cast_default DataFrame_def)
    with vs(2) show ?thesis by simp
  qed
  have present: "\<exists>cells. get_column df dest = Some cells \<and> length cells = length data
               \<and> cells ! i = configured_default dt"
    if h: "has_column (DataFrame data) src" "i < length data"
      "to_numeric_cell parse (cell (data ! i) src) = NFloat NaN"
  proof -
    let ?xs = "map (fillna DEFAULT_NUMERIC \<circ> to_numeric_cell parse) (map (\<lambda>row. cell row src) data)"
    from h(1) vs(1) have "astype dt ?xs = Inr vs"
      by (simp add: coerced_def get_column_DataFrame)
    from astype_cells [OF this] h(2) have
      "length vs = length data" "astype_cell dt (?xs ! i) = Inr (vs ! i)" by auto
    moreover have "?xs ! i = fillna DEFAULT_NUMERIC (NFloat NaN)" using h(2,3) by simp
    ultimately have "length vs = length data \<and> vs ! i = configured_default dt"
      by (simp add: astype_default)
    with vs(2) show ?thesis by simp
  qed
  from absent present show ?thesis by blast
qed

text \<open>The theorem on a one-row table whose \<open>bedrooms\<close> source holds a text: the absent
  price source and the unreadable bedrooms value both give the default.\<close>

theorem safe_dataframe_defaults_witness:
  "get_column (snd (safe_dataframe plain_decimal [[(''bedrooms_$numberInt'', VStr ''n/a'')]]
        :: unit ui_event list \<times> dataframe)) ''price'' = Some [VFloat (Fin 0)]
   \<and> (\<exists>cells. get_column (snd (safe_dataframe plain_decimal [[(''bedrooms_$numberInt'', VStr ''n/a'')]]
        :: unit ui_event list \<times> dataframe)) ''bedrooms'' = Some cells
        \<and> length cells = 1 \<and> cells ! 0 = VInt 0)"
proof -
  let ?data = "[[(''bedrooms_$numberInt'', VStr ''n/a'')]]"
  let ?parse = "plain_decimal"
  obtain evs :: "unit ui_event list" and df where r: "safe_dataframe ?parse ?data = (evs, df)"
    by (cases "safe_dataframe ?parse ?data :: unit ui_event list \<times> dataframe")
  have fr: "DataFrame ?data = \<lparr>nrows = 1, columns = [(''bedrooms_$numberInt'', [VStr ''n/a''])]\<rparr>"
    by (simp add: DataFrame_def frame_keys_def add_key_def cell_def dict_get_def)
  have cols: "columns (DataFrame ?data) = [(''bedrooms_$numberInt'', [VStr ''n/a''])]"
    by (simp add: fr)
  have "evs = []"
    using r
    by (simp add: safe_dataframe_def dataframe_body_def numeric_config_def coerce_column_def
          get_column_def set_column_def dict_get_def fr DEFAULT_NUMERIC_def trunc_def
          plain_decimal_def split: sum.splits)
  with r have e: "safe_dataframe ?parse ?data = (([] :: unit ui_event list), df)" by simp
  have m1: "(''price_$numberDecimal'', ''price'', PyFloat) \<in> set numeric_config"
    and m2: "(''bedrooms_$numberInt'', ''bedrooms'', PyInt) \<in> set numeric_config"
    by (simp_all add: numeric_config_def)
  have h1: "\<not> has_column (DataFrame ?data) ''price_$numberDecimal''"
    and h2: "has_column (DataFrame ?data) ''bedrooms_$numberInt''"
    by (simp_all add: has_column_def dict_has_def cols)
  have h3: "to_numeric_cell ?parse (cell (?data ! 0) ''bedrooms_$numberInt'') = NFloat NaN"
    by (simp add: cell_def dict_get_def plain_decimal_def)
  from safe_dataframe_defaults [OF e m1, of 0] safe_dataframe_defaults [OF e m2, of 0] h1 h2 h3 r e
  show ?thesis by simp
qed

text \<open>
  Claim C3, as stated, fails on a table with an infinite value in an integer source
  column: the cast raises, the handler returns the empty table, and the table has no
  \<open>price\<close> column although the price source is absent.
\<close>

theorem safe_dataframe_exception_drops_defaults:
  "\<not> has_column (DataFrame [[(''accommodates_$numberInt'', VFloat PosInf)]]) ''price_$numberDecimal''
   \<and> (safe_dataframe (\<lambda>s. None) [[(''accommodates_$numberInt'', VFloat PosInf)]]
        :: unit ui_event list \<times> dataframe)
      = ([UiError ''Data processing error: Cannot convert non-finite values (NA or inf) to integer''],
         empty_frame)
   \<and> get_column empty_frame ''price'' \<noteq> Some [configured_default PyFloat]"
proof -
  let ?data = "[[(''accommodates_$numberInt'', VFloat PosInf)]]"
  have fr: "DataFrame ?data = \<lparr>nrows = 1, columns = [(''accommodates_$numberInt'', [VFloat PosInf])]\<rparr>"
    by (simp add: DataFrame_def frame_keys_def add_key_def cell_def dict_get_def)
  have cols: "columns (DataFrame ?data) = [(''accommodates_$numberInt'', [VFloat PosInf])]"
    by (simp add: fr)
  have a: "\<not> has_column (DataFrame ?data) ''price_$numberDecimal''"
    by (simp add: has_column_def dict_has_def cols)
  have b: "(safe_dataframe (\<lambda>s. None) ?data :: unit ui_event list \<times> dataframe)
      = ([UiError ''Data processing error: Cannot convert non-finite values (NA or inf) to integer''],
         empty_frame)"
    by (simp add: safe_dataframe_def dataframe_body_def numeric_config_def coerce_column_def
          get_column_def set_column_def dict_get_def fr DEFAULT_NUMERIC_def trunc_def)
  have c: "get_column empty_frame ''price'' \<noteq> Some [configured_default PyFloat]"
    by (simp add: get_column_def empty_frame_def dict_get_def)
  from a b c show ?thesis by blast
qed

text \<open>
  Claim C1, as stated, fails at its first step: the wrapped value of the example document
  is the text \<open>"100.5"\<close>, not a \<open>Decimal128\<close>, and \<open>safe_convert\<close> leaves it as it is.
\<close>

theorem price_example_flatten_keeps_text:
  "safe_flatten [(''price'', VDict [(''$numberDecimal'', VStr ''100.5'')])]
     = [(''price_$numberDecimal'', VStr ''100.5'')]
   \<and> safe_flatten [(''price'', VDict [(''$numberDecimal'', VStr ''100.5'')])]
     \<noteq> [(''price_$numberDecimal'', VFloat (Fin (201 / 2)))]"
  by (simp add: safe_flatten_def join_key_def)

text \<open>
  Claim C1, amended. The example document flattens to the row that maps
  \<open>price_$numberDecimal\<close> to the text \<open>"100.5"\<close> (to the double 100.5 when the wrapper holds a
  \<open>Decimal128\<close>); the tabular coercion, with any reader of numbers that reads \<open>"100.5"\<close> as
  100.5, reports no error and gives the derived column \<open>price\<close> the double 100.5.
\<close>

theorem price_example_coerces:
  assumes "parse ''100.5'' = Some (NFloat (Fin (201 / 2)))"
  shows "safe_flatten [(''price'', VDict [(''$numberDecimal'', VStr ''100.5'')])]
           = [(''price_$numberDecimal'', VStr ''100.5'')]
       \<and> safe_flatten [(''price'', VDict [(''$numberDecimal'', VDecimal128 (Dec (201 / 2)))])]
           = [(''price_$numberDecimal'', VFloat (Fin (201 / 2)))]
       \<and> fst (safe_dataframe parse
                [safe_flatten [(''price'', VDict [(''$numberDecimal'', VStr ''100.5'')])]]
             :: unit ui_event list \<times> dataframe) = []
       \<and> get_column (snd (safe_dataframe parse
                [safe_flatten [(''price'', VDict [(''$numberDecimal'', VStr ''100.5'')])]]
             :: unit ui_event list \<times> dataframe)) ''price'' = Some [VFloat (Fin (201 / 2))]"
proof -
  have f: "safe_flatten [(''price'', VDict [(''$numberDecimal'', VStr ''100.5'')])]
           = [(''price_$numberDecimal'', VStr ''100.5'')]"
    by (simp add: safe_flatten_def join_key_def)
  have g: "safe_flatten [(''price'', VDict [(''$numberDecimal'', VDecimal128 (Dec (201 / 2)))])]
           = [(''price_$numberDecimal'', VFloat (Fin (201 / 2)))]"
    by (simp add: safe_flatten_def join_key_def)
  have fr: "DataFrame [[(''price_$numberDecimal'', VStr ''100.5'')]]
      = \<lparr>nrows = 1, columns = [(''price_$numberDecimal'', [VStr ''100.5''])]\<rparr>"
    by (simp add: DataFrame_def frame_keys_def add_key_def cell_def dict_get_def)
  have "dataframe_body parse [[(''price_$numberDecimal'', VStr ''100.5'')]]
      = Inr \<lparr>nrows = 1, columns =
           [(''price_$numberDecimal'', [VStr ''100.5'']),
            (''price'', [VFloat (Fin (201 / 2))]),
            (''cleaning_fee'', [VFloat (Fin 0)]), (''review_rating'', [VInt 0]),
            (''accommodates'', [VInt 0]), (''bedrooms'', [VInt 0]),
            (''bathrooms'', [VFloat (Fin 0)]),
            (''host_is_superhost'', [VBool False])]\<rparr>"
    using assms
    by (simp add: dataframe_body_def numeric_config_def coerce_column_def add_coordinates_def
          get_column_def set_column_def dict_get_def fr DEFAULT_NUMERIC_def trunc_def)
  then have "(safe_dataframe parse [[(''price_$numberDecimal'', VStr ''100.5'')]]
        :: unit ui_event list \<times> dataframe)
      = ([], \<lparr>nrows = 1, columns =
           [(''price_$numberDecimal'', [VStr ''100.5'']),
            (''price'', [VFloat (Fin (201 / 2))]),
            (''cleaning_fee'', [VFloat (Fin 0)]), (''review_rating'', [VInt 0]),
            (''accommodates'', [VInt 0]), (''bedrooms'', [VInt 0]),
            (''bathrooms'', [VFloat (Fin 0)]),
            (''host_is_superhost'', [VBool False])]\<rparr>)"
    by (simp add: safe_dataframe_def)
  with f g show ?thesis by (simp add: get_column_def dict_get_def)
qed

lemma plain_decimal_100_5: "plain_decimal ''100.5'' = Some (NFloat (Fin (201 / 2)))"
  by (simp add: plain_decimal_def)

lemma plain_decimal_text: "plain_decimal ''n/a'' = None"
  by (simp add: plain_decimal_def)

text \<open>The theorem with the reader of decimal literals.\<close>

theorem price_example_coerces_witness:
  "get_column (snd (safe_dataframe plain_decimal
                [safe_flatten [(''price'', VDict [(''$numberDecimal'', VStr ''100.5'')])]]
             :: unit ui_event list \<times> dataframe)) ''price'' = Some [VFloat (Fin (201 / 2))]"
  using price_example_coerces [of plain_decimal] plain_decimal_100_5 by blast

section \<open>Claims about field validation and the queries\<close>

lemma missing_fields_first:
  "missing_fields (first # others) required = Inr (filter (\<lambda>f. \<not> dict_has first f) required)"
  by (induction required) auto

text \<open>
  Claim C10, as stated, fails for an empty result list with no required field: the list
  comprehension never reads \<open>data[0]\<close>, nothing is raised, and the function returns true.
\<close>

theorem validate_fields_empty_no_fields:
  "(validate_fields [] [] :: py_exn + (unit ui_event list \<times> bool)) = Inr ([], True)
   \<and> (validate_fields [] [] :: py_exn + (unit ui_event list \<times> bool))
       \<noteq> Inl (PyExn True ''list index out of range'')"
  by (simp add: validate_fields_def)

text \<open>
  Claim C10, amended. On a non-empty result list \<open>validate_fields\<close> returns true exactly
  when every required field is a key of the first document, whatever the other documents
  hold; on an empty result list it raises the index error when at least one field is
  required, and returns true when none is.
\<close>

theorem validate_fields_first_row:
  "(\<exists>evs :: 'fig ui_event list.
      validate_fields (first # others) required
        = Inr (evs, (\<forall>field \<in> set required. dict_has first field)))
   \<and> (validate_fields (first # others) required :: py_exn + ('fig ui_event list \<times> bool))
        = validate_fields [first] required
   \<and> (required \<noteq> [] \<longrightarrow>
        (validate_fields [] required :: py_exn + ('fig ui_event list \<times> bool))
          = Inl (PyExn True ''list index out of range''))
   \<and> (validate_fields [] [] :: py_exn + ('fig ui_event list \<times> bool)) = Inr ([], True)"
proof -
  have a: "required \<noteq> [] \<Longrightarrow> missing_fields [] required = Inl (PyExn True ''list index out of range'')"
    by (cases required) auto
  show ?thesis
    using a by (auto simp: validate_fields_def missing_fields_first filter_empty_conv)
qed

text \<open>The theorem on a field held by the first document only, by the second only, and
  on the empty list.\<close>

theorem validate_fields_first_row_witness:
  "(validate_fields [[(''price'', VInt 1)], []] [''price''] :: py_exn + (unit ui_event list \<times> bool))
      = Inr ([], True)
   \<and> (validate_fields [[], [(''price'', VInt 1)]] [''price''] :: py_exn + (unit ui_event list \<times> bool))
      = Inr ([UiError ''Missing fields: price''], False)
   \<and> (validate_fields [] [''price''] :: py_exn + (unit ui_event list \<times> bool))
      = Inl (PyExn True ''list index out of range'')"
proof -
  have n: "[''price''] \<noteq> []" by simp
  have a: "(validate_fields [[(''price'', VInt 1)], []] [''price''] :: py_exn + (unit ui_event list \<times> bool))
      = Inr ([], True)"
    by (simp add: validate_fields_def dict_has_def)
  have b: "(validate_fields [[], [(''price'', VInt 1)]] [''price''] :: py_exn + (unit ui_event list \<times> bool))
      = Inr ([UiError ''Missing fields: price''], False)"
    by (simp add: validate_fields_def dict_has_def)
  from validate_fields_first_row [of "[(''price'', VInt 1)]" "[[]]" "[''price'']", where ?'fig = unit]
    validate_fields_first_row [of _ _ "[''price'']", where ?'fig = unit] n a b
  show ?thesis by blast
qed

lemma aggregate_append:
  "aggregate st (p @ q) docs =
     (case aggregate st p docs of Inl e \<Rightarrow> Inl e | Inr docs' \<Rightarrow> aggregate st q docs')"
  by (induction p arbitrary: docs) (auto split: sum.splits)

lemma run_limit: "run_stage st (VDict [(''$limit'', VInt n)]) docs = Inr rows \<Longrightarrow> length rows \<le> nat n"
  by (auto simp: run_stage_def split: if_splits)

lemma run_group_length: "run_group st spec docs = Inr rows \<Longrightarrow> length rows \<le> 1"
  by (auto simp: run_group_def split: list.splits pyval.splits if_splits sum.splits)

text \<open>
  Claim C8. Every query of the three dashboards returns at most 1000 documents: the two
  \<open>find\<close> queries carry the limit 1000 (\<open>MAX_SAMPLE_SIZE\<close> in airbnb\_analytics), the
  visualization pipeline ends with the stage \<open>$limit: 1000\<close> whatever stages precede it,
  the field discovery pipeline ends with \<open>$limit: 10\<close>, and a metric pipeline ends with a
  \<open>$group\<close> stage, which yields at most one document.
\<close>

theorem queries_bounded:
  "length (load_airbnb collection) \<le> 1000
   \<and> length (load_df collection) \<le> 1000
   \<and> MAX_SAMPLE_SIZE = 1000
   \<and> last (vis_pipeline pipeline x_field y_field color_field size_field) = VDict [(''$limit'', VInt 1000)]
   \<and> (aggregate st (vis_pipeline pipeline x_field y_field color_field size_field) collection = Inr rows
        \<longrightarrow> length rows \<le> 1000)
   \<and> (aggregate st sample_pipeline collection = Inr rows \<longrightarrow> length rows \<le> 10)
   \<and> (aggregate st (pipeline @ [VDict [(''$group'', VDict group_stage)]]) collection = Inr rows
        \<longrightarrow> length rows \<le> 1)"
proof -
  have a: "length (load_airbnb collection) \<le> 1000" "length (load_df collection) \<le> 1000"
    by (simp_all add: load_airbnb_def load_df_def cursor_limit_def MAX_SAMPLE_SIZE_def)
  have b: "length rows \<le> 1000"
    if "aggregate st (vis_pipeline pipeline x_field y_field color_field size_field) collection = Inr rows"
  proof -
    from that obtain docs where
      "run_stage st (VDict [(''$limit'', VInt 1000)]) docs = Inr rows"
      by (auto simp: vis_pipeline_def aggregate_append split: sum.splits)
    from run_limit [OF this] show ?thesis by simp
  qed
  have c: "length rows \<le> 10" if "aggregate st sample_pipeline collection = Inr rows"
  proof -
    from that obtain docs where "run_stage st (VDict [(''$limit'', VInt 10)]) docs = Inr rows"
      by (auto simp: sample_pipeline_def split: sum.splits)
    from run_limit [OF this] show ?thesis by simp
  qed
  have d: "length rows \<le> 1"
    if "aggregate st (pipeline @ [VDict [(''$group'', VDict group_stage)]]) collection = Inr rows"
  proof -
    from that obtain docs where "run_group st group_stage docs = Inr rows"
      by (auto simp: aggregate_append run_stage_def split: sum.splits)
    then show ?thesis by (rule run_group_length)
  qed
  have e: "last (vis_pipeline pipeline x_field y_field color_field size_field) = VDict [(''$limit'', VInt 1000)]"
    by (simp add: vis_pipeline_def)
  from a b c d e show ?thesis by (simp add: MAX_SAMPLE_SIZE_def)
qed

text \<open>The theorem on three answered queries of the sample store.\<close>

theorem queries_bounded_witness:
  "aggregate plain_store (vis_pipeline [] ''x'' ''y'' [] [])
       [[(''x'', VInt 1), (''y'', VInt 2)], [(''x'', VInt 3), (''z'', VInt 4)]]
     = Inr [[(''x'', VInt 1), (''y'', VInt 2)], [(''x'', VInt 3)]]
   \<and> aggregate plain_store sample_pipeline [[(''x'', VInt 1)]] = Inr [[(''x'', VInt 1)]]
   \<and> aggregate plain_store ([] @ [VDict [(''$group'', VDict [(''_id'', VNone), (''count'', VDict [(''$sum'', VInt 1)])])]])
       [[(''x'', VInt 1)], [(''x'', VInt 3)]]
     = Inr [[(''_id'', VNone), (''count'', VInt 2)]]
   \<and> length [[(''x'', VInt 1), (''y'', VInt 2)], [(''x'', VInt 3)]] \<le> (1000 :: nat)"
proof -
  have a: "aggregate plain_store (vis_pipeline [] ''x'' ''y'' [] [])
       [[(''x'', VInt 1), (''y'', VInt 2)], [(''x'', VInt 3), (''z'', VInt 4)]]
     = Inr [[(''x'', VInt 1), (''y'', VInt 2)], [(''x'', VInt 3)]]"
    by (simp add: vis_pipeline_def projection_def run_stage_def plain_store_def dict_get_def)
  have b: "aggregate plain_store sample_pipeline [[(''x'', VInt 1)]] = Inr [[(''x'', VInt 1)]]"
    by (simp add: sample_pipeline_def run_stage_def plain_store_def)
  have c: "aggregate plain_store ([] @ [VDict [(''$group'', VDict [(''_id'', VNone), (''count'', VDict [(''$sum'', VInt 1)])])]])
       [[(''x'', VInt 1)], [(''x'', VInt 3)]]
     = Inr [[(''_id'', VNone), (''count'', VInt 2)]]"
    by (simp add: run_stage_def run_group_def accumulate_def)
  from a b c
    queries_bounded [where st = plain_store and pipeline = "[]" and x_field = "''x''"
      and y_field = "''y''" and color_field = "[]" and size_field = "[]"
      and collection = "[[(''x'', VInt 1), (''y'', VInt 2)], [(''x'', VInt 3), (''z'', VInt 4)]]"
      and rows = "[[(''x'', VInt 1), (''y'', VInt 2)], [(''x'', VInt 3)]]"]
    queries_bounded [where st = plain_store and collection = "[[(''x'', VInt 1)]]"
      and rows = "[[(''x'', VInt 1)]]"]
    queries_bounded [where st = plain_store and pipeline = "[]"
      and group_stage = "[(''_id'', VNone), (''count'', VDict [(''$sum'', VInt 1)])]"
      and collection = "[[(''x'', VInt 1)], [(''x'', VInt 3)]]"
      and rows = "[[(''_id'', VNone), (''count'', VInt 2)]]"]
  show ?thesis by blast
qed

section \<open>Properties of the metric pipeline\<close>

lemma lower_names:
  "lower ''Count'' = ''count''" "lower ''Sum'' = ''sum''" "lower ''Average'' = ''average''"
  "lower ''Max'' = ''max''" "lower ''Min'' = ''min''" "lower ''Unique Count'' = ''unique count''"
  by code_simp+

lemma replace_value: "replace ''$value'' ''$value'' new = new"
  by simp

lemma known_metric:
  "metric \<in> set (map fst METRIC_OPERATIONS) \<longleftrightarrow>
     metric = ''Count'' \<or> metric = ''Sum'' \<or> metric = ''Average'' \<or> metric = ''Max''
     \<or> metric = ''Min'' \<or> metric = ''Unique Count''"
  by (auto simp: METRIC_OPERATIONS_def)

lemma group_entry_each:
  "group_entry field ''Count'' = (''count'', VDict [(''$sum'', VInt 1)])"
  "group_entry field ''Sum'' = (''sum'', VDict [(''$sum'', VStr (''$'' @ field))])"
  "group_entry field ''Average'' = (''average'', VDict [(''$avg'', VStr (''$'' @ field))])"
  "group_entry field ''Max'' = (''max'', VDict [(''$max'', VStr (''$'' @ field))])"
  "group_entry field ''Min'' = (''min'', VDict [(''$min'', VStr (''$'' @ field))])"
  "group_entry field ''Unique Count'' = (''unique count'', VDict [(''$addToSet'', VStr (''$'' @ field))])"
  by (simp_all add: group_entry_def)

lemma build_metric_each:
  "build_metric_loop field (''Count'' # rest) g =
     build_metric_loop field rest (dict_set g ''count'' (VDict [(''$sum'', VInt 1)]))"
  "build_metric_loop field (''Sum'' # rest) g =
     build_metric_loop field rest (dict_set g ''sum'' (VDict [(''$sum'', VStr (''$'' @ field))]))"
  "build_metric_loop field (''Average'' # rest) g =
     build_metric_loop field rest (dict_set g ''average'' (VDict [(''$avg'', VStr (''$'' @ field))]))"
  "build_metric_loop field (''Max'' # rest) g =
     build_metric_loop field rest (dict_set g ''max'' (VDict [(''$max'', VStr (''$'' @ field))]))"
  "build_metric_loop field (''Min'' # rest) g =
     build_metric_loop field rest (dict_set g ''min'' (VDict [(''$min'', VStr (''$'' @ field))]))"
  "build_metric_loop field (''Unique Count'' # rest) g =
     build_metric_loop field rest
       (dict_set g ''unique count'' (VDict [(''$addToSet'', VStr (''$'' @ field))]))"
  by (simp_all add: METRIC_OPERATIONS_def dict_get_def lower_names replace_value)

lemma build_metric_step:
  assumes "metric \<in> set (map fst METRIC_OPERATIONS)"
  shows "build_metric_loop field (metric # rest) g =
         build_metric_loop field rest
           (dict_set g (fst (group_entry field metric)) (snd (group_entry field metric)))"
proof -
  from assms have "metric = ''Count'' \<or> metric = ''Sum'' \<or> metric = ''Average''
      \<or> metric = ''Max'' \<or> metric = ''Min'' \<or> metric = ''Unique Count''"
    by (simp only: known_metric)
  then show ?thesis
    by (elim disjE) (simp_all only: build_metric_each group_entry_each fst_conv snd_conv)
qed

lemma build_metric_loop_known:
  "set metrics \<subseteq> set (map fst METRIC_OPERATIONS) \<Longrightarrow>
   build_metric_loop field metrics g = Inr (dict_update g (map (group_entry field) metrics))"
proof (induction metrics arbitrary: g)
  case (Cons m ms)
  then have "m \<in> set (map fst METRIC_OPERATIONS)" by simp
  from build_metric_step [OF this] Cons show ?case
    by (cases "group_entry field m") simp
qed simp

lemma dict_update_keep_head:
  "k \<notin> fst ` set es \<Longrightarrow> dict_update ((k, v) # ps) es = (k, v) # dict_update ps es"
  by (induction es arbitrary: ps) auto

lemma group_entry_key: "fst (group_entry field metric) \<noteq> ''_id''"
  by (simp add: group_entry_def)

lemma build_metric_group_known:
  assumes "set metrics \<subseteq> set (map fst METRIC_OPERATIONS)"
  shows "build_metric_group field metrics
       = Inr ((''_id'', VNone) # dict_update [] (map (group_entry field) metrics))"
proof -
  have "''_id'' \<notin> fst ` set (map (group_entry field) metrics)"
  proof
    assume "''_id'' \<in> fst ` set (map (group_entry field) metrics)"
    then have "\<exists>m. ''_id'' = fst (group_entry field m)" by (auto simp: image_iff)
    with group_entry_key show False by metis
  qed
  then show ?thesis
    by (simp add: build_metric_group_def build_metric_loop_known [OF assms] dict_update_keep_head)
qed

lemma map_of_unique_value:
  assumes "k \<in> fst ` set xs" "\<And>v'. (k, v') \<in> set xs \<Longrightarrow> v' = v"
  shows "map_of xs k = Some v"
proof -
  from assms(1) obtain v' where "map_of xs k = Some v'"
    by (metis domD dom_map_of_conv_image_fst)
  moreover from this have "(k, v') \<in> set xs" by (rule map_of_SomeD)
  ultimately show ?thesis using assms(2) by simp
qed

lemma group_accumulator:
  assumes "metric \<in> set metrics"
  shows "map_of (dict_update [] (map (group_entry field) metrics)) (fst (group_entry field metric))
       = Some (snd (group_entry field metric))"
proof -
  let ?es = "map (group_entry field) metrics"
  have "map_of (rev ?es) (fst (group_entry field metric)) = Some (snd (group_entry field metric))"
  proof (rule map_of_unique_value)
    show "fst (group_entry field metric) \<in> fst ` set (rev ?es)" using assms by force
  next
    fix v' assume "(fst (group_entry field metric), v') \<in> set (rev ?es)"
    then obtain m where "group_entry field m = (fst (group_entry field metric), v')" by auto
    then show "v' = snd (group_entry field metric)"
      by (auto simp: group_entry_def split: if_splits)
  qed
  then show ?thesis by (simp add: map_of_dict_update)
qed

lemma accumulate_entry:
  "\<exists>v. accumulate st (snd (group_entry field metric)) docs = Inr v"
  by (simp add: group_entry_def accumulate_def)

lemma accumulate_all_total:
  "(\<And>n a. (n, a) \<in> set accs \<Longrightarrow> \<exists>v. accumulate st a docs = Inr v) \<Longrightarrow>
   \<exists>vs. accumulate_all st accs docs = Inr vs"
proof (induction accs)
  case (Cons p accs)
  obtain n a where p: "p = (n, a)" by (cases p) auto
  from Cons.prems [of n a] p obtain v where "accumulate st a docs = Inr v" by auto
  moreover from Cons obtain vs where "accumulate_all st accs docs = Inr vs" by force
  ultimately show ?case by (simp add: p)
qed simp

lemma accumulate_all_lookup:
  "accumulate_all st accs docs = Inr vs \<Longrightarrow> map_of accs k = Some a \<Longrightarrow>
   \<exists>v. accumulate st a docs = Inr v \<and> map_of vs k = Some v"
proof (induction accs arbitrary: vs)
  case (Cons p accs)
  then show ?case by (cases p) (auto split: sum.splits if_splits)
qed simp

lemma each_doc_length: "each_doc f ds = Inr ds' \<Longrightarrow> length ds' = length ds"
  by (induction ds arbitrary: ds') (auto split: sum.splits)

lemma base_pipeline_length:
  "aggregate st (base_pipeline custom_fields) docs = Inr docs' \<Longrightarrow> length docs' = length docs"
proof (induction custom_fields arbitrary: docs)
  case (Cons c cs)
  obtain f e where c: "c = (f, e)" by (cases c) auto
  from Cons.prems obtain d1 where
    s: "each_doc (add_fields st [(f, e)]) docs = Inr d1" "aggregate st (base_pipeline cs) d1 = Inr docs'"
    by (auto simp: base_pipeline_def c run_stage_def split: sum.splits)
  from Cons.IH [OF s(2)] each_doc_length [OF s(1)] show ?case by simp
qed (simp add: base_pipeline_def)

lemma show_metrics_member:
  "show_metrics result metrics = ((evs :: 'fig ui_event list), None) \<Longrightarrow> metric \<in> set metrics \<Longrightarrow>
   \<exists>v. metric_value result metric = Inr v \<and> UiMetric metric v \<in> set evs"
proof (induction metrics arbitrary: evs)
  case (Cons m ms)
  then show ?case by (auto split: sum.splits prod.splits)
qed simp

lemma show_metrics_total:
  "(\<And>m. m \<in> set metrics \<Longrightarrow> \<exists>v. metric_value result m = Inr v) \<Longrightarrow>
   \<exists>evs :: 'fig ui_event list. show_metrics result metrics = (evs, None)"
proof (induction metrics)
  case (Cons m ms)
  from Cons.prems [of m] obtain v where "metric_value result m = Inr v" by auto
  moreover from Cons obtain evs :: "'fig ui_event list" where "show_metrics result ms = (evs, None)"
    by force
  ultimately show ?case by simp
qed simp

lemma length_add_to_set:
  "inj_on key (set acc) \<Longrightarrow> distinct acc \<Longrightarrow>
   length (add_to_set key vs acc) = card (key ` (set acc \<union> set vs))"
proof (induction vs arbitrary: acc)
  case Nil
  then show ?case by (simp add: card_image distinct_card)
next
  case (Cons v vs)
  show ?case
  proof (cases "key v \<in> key ` set acc")
    case True
    then have "key ` (set acc \<union> set (v # vs)) = key ` (set acc \<union> set vs)" by auto
    with Cons True show ?thesis by simp
  next
    case False
    then have "v \<notin> set acc" by auto
    with False Cons.prems have "inj_on key (set (acc @ [v]))" "distinct (acc @ [v])" by auto
    from Cons.IH [OF this] False show ?thesis by (simp add: Un_commute insert_commute)
  qed
qed

lemma set_present_values:
  "set (present_values st path docs) = {v. \<exists>d \<in> set docs. field_value st path d = Some v}"
proof -
  have "set (List.map_filter f xs) = {v. \<exists>x \<in> set xs. f x = Some v}" for f :: "doc \<Rightarrow> pyval option" and xs
    by (induction xs) (auto split: option.splits)
  then show ?thesis by (simp add: present_values_def)
qed

section \<open>Claims about the metrics\<close>

lemma metrics_result:
  assumes agg: "aggregate st pipeline collection = Inr docs" and ne: "docs \<noteq> []"
    and known: "set metric_types \<subseteq> set (map fst METRIC_OPERATIONS)"
  shows "\<exists>group_stage vs.
           build_metric_group field metric_types = Inr group_stage
         \<and> aggregate st (pipeline @ [VDict [(''$group'', VDict group_stage)]]) collection
             = Inr [(''_id'', VNone) # vs]
         \<and> (\<forall>m \<in> set metric_types.
              dict_get group_stage (fst (group_entry field m)) = Some (snd (group_entry field m))
            \<and> (\<exists>v. accumulate st (snd (group_entry field m)) docs = Inr v
                  \<and> dict_get ((''_id'', VNone) # vs) (fst (group_entry field m)) = Some v))"
proof -
  let ?accs = "dict_update [] (map (group_entry field) metric_types)"
  let ?g = "(''_id'', VNone) # ?accs"
  have b: "build_metric_group field metric_types = Inr ?g"
    by (rule build_metric_group_known [OF known])
  have acc_ok: "\<exists>v. accumulate st a docs = Inr v" if "(n, a) \<in> set ?accs" for n a
  proof -
    from that set_dict_update [of "[]" "map (group_entry field) metric_types"]
    obtain m where "group_entry field m = (n, a)" by auto
    then have "a = snd (group_entry field m)" by simp
    then show ?thesis using accumulate_entry by simp
  qed
  have "\<exists>vs. accumulate_all st ?accs docs = Inr vs"
    by (rule accumulate_all_total) (rule acc_ok)
  then obtain vs where vs: "accumulate_all st ?accs docs = Inr vs" ..
  have r: "aggregate st (pipeline @ [VDict [(''$group'', VDict ?g)]]) collection
      = Inr [(''_id'', VNone) # vs]"
    using agg ne vs by (simp add: aggregate_append run_stage_def run_group_def)
  have "dict_get ?g (fst (group_entry field m)) = Some (snd (group_entry field m))
      \<and> (\<exists>v. accumulate st (snd (group_entry field m)) docs = Inr v
            \<and> dict_get ((''_id'', VNone) # vs) (fst (group_entry field m)) = Some v)"
    if "m \<in> set metric_types" for m
  proof -
    from group_accumulator [OF that] have
      a: "map_of ?accs (fst (group_entry field m)) = Some (snd (group_entry field m))" .
    from accumulate_all_lookup [OF vs a] show ?thesis
      using a group_entry_key [of field m] by (auto simp: dict_get_def)
  qed
  with b r show ?thesis by blast
qed

lemma metrics_shown:
  assumes agg: "aggregate st pipeline collection = Inr docs" and ne: "docs \<noteq> []"
    and known: "set metric_types \<subseteq> set (map fst METRIC_OPERATIONS)"
  shows "\<exists>result (evs :: 'fig ui_event list).
           field_metrics st collection pipeline field metric_types = (evs, None)
         \<and> (\<forall>m \<in> set metric_types.
              (\<exists>v. accumulate st (snd (group_entry field m)) docs = Inr v
                  \<and> dict_get result (fst (group_entry field m)) = Some v)
            \<and> (\<exists>v. metric_value result m = Inr v \<and> UiMetric m v \<in> set evs))"
proof -
  from metrics_result [OF agg ne known, of field] obtain g vs where
    b: "build_metric_group field metric_types = Inr g"
    and r: "aggregate st (pipeline @ [VDict [(''$group'', VDict g)]]) collection
             = Inr [(''_id'', VNone) # vs]"
    and l: "\<forall>m \<in> set metric_types.
              (\<exists>v. accumulate st (snd (group_entry field m)) docs = Inr v
                  \<and> dict_get ((''_id'', VNone) # vs) (fst (group_entry field m)) = Some v)"
    by blast
  let ?result = "(''_id'', VNone) # vs"
  have val: "\<exists>v. metric_value ?result m = Inr v" if "m \<in> set metric_types" for m
  proof (cases "m = ''Unique Count''")
    case True
    from l that True obtain v where
      "accumulate st (VDict [(''$addToSet'', VStr (''$'' @ field))]) docs = Inr v"
      "dict_get ?result ''unique count'' = Some v"
      by (auto simp: group_entry_each)
    then show ?thesis
      using True by (auto simp: metric_value_def lower_names dict_get_default_def accumulate_def)
  next
    case False
    then show ?thesis by (simp add: metric_value_def)
  qed
  from show_metrics_total [of metric_types ?result, OF val]
  obtain evs :: "'fig ui_event list" where e: "show_metrics ?result metric_types = (evs, None)"
    by blast
  have f: "field_metrics st collection pipeline field metric_types = (evs, None)"
    using b r e by (simp add: field_metrics_def metrics_body_def except_Exception_def)
  from show_metrics_member [OF e] l f show ?thesis by blast
qed

lemma count_metric_shown:
  assumes "aggregate st pipeline collection = Inr docs" and "docs \<noteq> []"
    and "set metric_types \<subseteq> set (map fst METRIC_OPERATIONS)"
    and "''Count'' \<in> set metric_types"
  shows "\<exists>evs :: 'fig ui_event list.
           field_metrics st collection pipeline field metric_types = (evs, None)
         \<and> UiMetric ''Count'' (VInt (int (length docs))) \<in> set evs"
proof -
  from metrics_shown [OF assms(1-3), of field, where ?'fig = 'fig]
  obtain result and evs :: "'fig ui_event list" where
    e: "field_metrics st collection pipeline field metric_types = (evs, None)"
    and l: "\<forall>m \<in> set metric_types.
              (\<exists>v. accumulate st (snd (group_entry field m)) docs = Inr v
                  \<and> dict_get result (fst (group_entry field m)) = Some v)
            \<and> (\<exists>v. metric_value result m = Inr v \<and> UiMetric m v \<in> set evs)"
    by blast
  from bspec [OF l assms(4)] obtain v w where
    a: "accumulate st (snd (group_entry field ''Count'')) docs = Inr v"
       "dict_get result (fst (group_entry field ''Count'')) = Some v"
    and m: "metric_value result ''Count'' = Inr w" "UiMetric ''Count'' w \<in> set evs"
    by blast
  from a(1) have "v = VInt (int (length docs))"
    by (simp add: group_entry_each accumulate_def)
  with a(2) m(1) have "w = VInt (int (length docs))"
    by (simp add: group_entry_each metric_value_def lower_names dict_get_default_def)
  with m(2) e show ?thesis by simp
qed

lemma unique_count_metric_shown:
  assumes "aggregate st pipeline collection = Inr docs" and "docs \<noteq> []"
    and "set metric_types \<subseteq> set (map fst METRIC_OPERATIONS)"
    and "''Unique Count'' \<in> set metric_types"
  shows "\<exists>evs :: 'fig ui_event list.
           field_metrics st collection pipeline field metric_types = (evs, None)
         \<and> UiMetric ''Unique Count''
              (VInt (int (card (value_key st ` {v. \<exists>d \<in> set docs. field_value st field d = Some v}))))
             \<in> set evs"
proof -
  from metrics_shown [OF assms(1-3), of field, where ?'fig = 'fig]
  obtain result and evs :: "'fig ui_event list" where
    e: "field_metrics st collection pipeline field metric_types = (evs, None)"
    and l: "\<forall>m \<in> set metric_types.
              (\<exists>v. accumulate st (snd (group_entry field m)) docs = Inr v
                  \<and> dict_get result (fst (group_entry field m)) = Some v)
            \<and> (\<exists>v. metric_value result m = Inr v \<and> UiMetric m v \<in> set evs)"
    by blast
  from bspec [OF l assms(4)] obtain v w where
    a: "accumulate st (snd (group_entry field ''Unique Count'')) docs = Inr v"
       "dict_get result (fst (group_entry field ''Unique Count'')) = Some v"
    and m: "metric_value result ''Unique Count'' = Inr w" "UiMetric ''Unique Count'' w \<in> set evs"
    by blast
  let ?vals = "present_values st field docs"
  from a(1) have v: "v = VList (add_to_set (value_key st) ?vals [])"
    by (simp add: group_entry_each accumulate_def)
  have "length (add_to_set (value_key st) ?vals []) = card (value_key st ` (set [] \<union> set ?vals))"
    by (rule length_add_to_set) simp_all
  then have "length (add_to_set (value_key st) ?vals [])
      = card (value_key st ` {v. \<exists>d \<in> set docs. field_value st field d = Some v})"
    by (simp add: set_present_values)
  with v a(2) m(1) have
    "w = VInt (int (card (value_key st ` {v. \<exists>d \<in> set docs. field_value st field d = Some v})))"
    by (simp add: group_entry_each metric_value_def lower_names dict_get_default_def)
  with m(2) e show ?thesis by simp
qed

lemma metric_accumulator_emitted:
  assumes "set metric_types \<subseteq> set (map fst METRIC_OPERATIONS)" and "m \<in> set metric_types"
  shows "\<exists>group_stage. build_metric_group field metric_types = Inr group_stage
           \<and> dict_get group_stage (fst (group_entry field m)) = Some (snd (group_entry field m))"
proof -
  from group_accumulator [OF assms(2), of field] group_entry_key [of field m]
  have "dict_get ((''_id'', VNone) # dict_update [] (map (group_entry field) metric_types))
          (fst (group_entry field m)) = Some (snd (group_entry field m))"
    by (simp add: dict_get_def)
  with build_metric_group_known [OF assms(1), of field] show ?thesis by simp
qed

text \<open>
  Claim C4, amended. Whenever the base pipeline answers with at least one document, the
  metric kinds are among the configured ones and \<open>Count\<close> is one of them, then for every
  field name \<open>build_metric_group\<close> stores the accumulator \<open>$sum: 1\<close> under the key
  \<open>count\<close>, no error is shown, and the metric \<open>Count\<close> shows the number of documents the
  \<open>$group\<close> stage receives, which for a base pipeline of \<open>$addFields\<close> stages is the number
  of documents of the collection.
\<close>

theorem count_metric_counts_documents:
  assumes "aggregate st pipeline collection = Inr docs" and "docs \<noteq> []"
    and "set metric_types \<subseteq> set (map fst METRIC_OPERATIONS)"
    and "''Count'' \<in> set metric_types"
  shows "(\<exists>group_stage. build_metric_group field metric_types = Inr group_stage
            \<and> dict_get group_stage ''count'' = Some (VDict [(''$sum'', VInt 1)]))
       \<and> (\<exists>evs :: 'fig ui_event list.
             field_metrics st collection pipeline field metric_types = (evs, None)
           \<and> UiMetric ''Count'' (VInt (int (length docs))) \<in> set evs)
       \<and> (pipeline = base_pipeline custom_fields \<longrightarrow> length docs = length collection)"
proof -
  have a: "\<exists>group_stage. build_metric_group field metric_types = Inr group_stage
            \<and> dict_get group_stage ''count'' = Some (VDict [(''$sum'', VInt 1)])"
    using metric_accumulator_emitted [OF assms(3,4), of field]
    by (simp add: group_entry_each)
  have b: "\<exists>evs :: 'fig ui_event list.
             field_metrics st collection pipeline field metric_types = (evs, None)
           \<and> UiMetric ''Count'' (VInt (int (length docs))) \<in> set evs"
    by (rule count_metric_shown [OF assms])
  have c: "length docs = length collection" if "pipeline = base_pipeline custom_fields"
    using assms(1) that by (simp add: base_pipeline_length)
  from a b c show ?thesis by simp
qed

text \<open>
  Claim C5, amended. Under the same conditions, with \<open>Unique Count\<close> among the metric
  kinds: \<open>build_metric_group\<close> stores the accumulator \<open>$addToSet\<close> over the field path
  under the key \<open>unique count\<close>, no error is shown, and the metric \<open>Unique Count\<close> shows the
  number of distinct values (up to the store's notion of equal values) that the field
  path takes in the documents the \<open>$group\<close> stage receives.
\<close>

theorem unique_count_metric_counts_values:
  assumes "aggregate st pipeline collection = Inr docs" and "docs \<noteq> []"
    and "set metric_types \<subseteq> set (map fst METRIC_OPERATIONS)"
    and "''Unique Count'' \<in> set metric_types"
  shows "(\<exists>group_stage. build_metric_group field metric_types = Inr group_stage
            \<and> dict_get group_stage ''unique count''
                = Some (VDict [(''$addToSet'', VStr (''$'' @ field))]))
       \<and> (\<exists>evs :: 'fig ui_event list.
             field_metrics st collection pipeline field metric_types = (evs, None)
           \<and> UiMetric ''Unique Count''
                (VInt (int (card (value_key st `
                   {v. \<exists>d \<in> set docs. field_value st field d = Some v}))))
               \<in> set evs)"
proof -
  have a: "\<exists>group_stage. build_metric_group field metric_types = Inr group_stage
            \<and> dict_get group_stage ''unique count''
                = Some (VDict [(''$addToSet'', VStr (''$'' @ field))])"
    using metric_accumulator_emitted [OF assms(3,4), of field]
    by (simp add: group_entry_each)
  have b: "\<exists>evs :: 'fig ui_event list.
             field_metrics st collection pipeline field metric_types = (evs, None)
           \<and> UiMetric ''Unique Count''
                (VInt (int (card (value_key st `
                   {v. \<exists>d \<in> set docs. field_value st field d = Some v}))))
               \<in> set evs"
    by (rule unique_count_metric_shown [OF assms])
  from a b show ?thesis by simp
qed

text \<open>
  Claim C4, as stated, fails on an empty collection: the \<open>$group\<close> stage yields no
  document, reading the first result raises, and the page shows an error where the
  count 0 would stand.
\<close>

theorem count_metric_empty_collection:
  "(field_metrics plain_store [] [] ''price'' [''Count''] :: unit ui_event list \<times> py_exn option)
     = ([UiError ''Metrics error: list index out of range''], None)
   \<and> UiMetric ''Count'' (VInt (int (length ([] :: doc list))))
       \<notin> set (fst (field_metrics plain_store [] [] ''price'' [''Count'']
                 :: unit ui_event list \<times> py_exn option))"
proof -
  have g: "build_metric_group ''price'' [''Count'']
      = Inr [(''_id'', VNone), (''count'', VDict [(''$sum'', VInt 1)])]"
    by (simp only: build_metric_group_def build_metric_each) simp
  have r: "run_stage plain_store
        (VDict [(''$group'', VDict [(''_id'', VNone), (''count'', VDict [(''$sum'', VInt 1)])])]) []
      = Inr []"
    by (simp add: run_stage_def run_group_def)
  have "(field_metrics plain_store [] [] ''price'' [''Count''] :: unit ui_event list \<times> py_exn option)
     = ([UiError ''Metrics error: list index out of range''], None)"
    by (simp add: field_metrics_def metrics_body_def except_Exception_def g r)
  then show ?thesis by simp
qed

text \<open>
  Claim C5, as stated, fails on an empty collection in the same way: no \<open>Unique Count\<close>
  metric is shown at all.
\<close>

theorem unique_count_metric_empty_collection:
  "(field_metrics plain_store [] [] ''price'' [''Unique Count''] :: unit ui_event list \<times> py_exn option)
     = ([UiError ''Metrics error: list index out of range''], None)
   \<and> (\<forall>v. UiMetric ''Unique Count'' v
       \<notin> set (fst (field_metrics plain_store [] [] ''price'' [''Unique Count'']
                 :: unit ui_event list \<times> py_exn option)))"
proof -
  have g: "build_metric_group ''price'' [''Unique Count'']
      = Inr [(''_id'', VNone), (''unique count'', VDict [(''$addToSet'', VStr ''$price'')])]"
    by (simp only: build_metric_group_def build_metric_each) simp
  have r: "run_stage plain_store
        (VDict [(''$group'', VDict [(''_id'', VNone),
                 (''unique count'', VDict [(''$addToSet'', VStr ''$price'')])])]) []
      = Inr []"
    by (simp add: run_stage_def run_group_def)
  have "(field_metrics plain_store [] [] ''price'' [''Unique Count''] :: unit ui_event list \<times> py_exn option)
     = ([UiError ''Metrics error: list index out of range''], None)"
    by (simp add: field_metrics_def metrics_body_def except_Exception_def g r)
  then show ?thesis by simp
qed

text \<open>The theorem for \<open>Count\<close> on three documents of the sample store.\<close>

theorem count_metric_counts_documents_witness:
  "UiMetric ''Count'' (VInt 3)
     \<in> set (fst (field_metrics plain_store
                [[(''price'', VInt 1)], [(''price'', VInt 1)], [(''price'', VInt 2)]]
                (base_pipeline []) ''price'' [''Count''] :: unit ui_event list \<times> py_exn option))"
proof -
  let ?c = "[[(''price'', VInt 1)], [(''price'', VInt 1)], [(''price'', VInt 2)]]"
  have h1: "aggregate plain_store (base_pipeline []) ?c = Inr ?c" by (simp add: base_pipeline_def)
  have h2: "?c \<noteq> []" by simp
  have h3: "set [''Count''] \<subseteq> set (map fst METRIC_OPERATIONS)" by (simp add: METRIC_OPERATIONS_def)
  have h4: "''Count'' \<in> set [''Count'']" by simp
  from count_metric_counts_documents [OF h1 h2 h3 h4, of "''price''" "[]", where ?'fig = unit]
  obtain evs :: "unit ui_event list" where
    "field_metrics plain_store ?c (base_pipeline []) ''price'' [''Count''] = (evs, None)"
    "UiMetric ''Count'' (VInt (int (length ?c))) \<in> set evs"
    by blast
  then show ?thesis by simp
qed

text \<open>The theorem for \<open>Unique Count\<close> on four documents, two of them with the same
  price and one without a price.\<close>

theorem unique_count_metric_counts_values_witness:
  "UiMetric ''Unique Count'' (VInt 2)
     \<in> set (fst (field_metrics plain_store
                [[(''price'', VInt 1)], [(''price'', VInt 1)], [(''price'', VInt 2)], [(''beds'', VInt 5)]]
                [] ''price'' [''Unique Count''] :: unit ui_event list \<times> py_exn option))"
proof -
  let ?c = "[[(''price'', VInt 1)], [(''price'', VInt 1)], [(''price'', VInt 2)], [(''beds'', VInt 5)]]"
  have h1: "aggregate plain_store [] ?c = Inr ?c" by simp
  have h2: "?c \<noteq> []" by simp
  have h3: "set [''Unique Count''] \<subseteq> set (map fst METRIC_OPERATIONS)"
    by (simp add: METRIC_OPERATIONS_def)
  have h4: "''Unique Count'' \<in> set [''Unique Count'']" by simp
  have vals: "{v. \<exists>d \<in> set ?c. field_value plain_store ''price'' d = Some v} = {VInt 1, VInt 2}"
    by (auto simp: field_value_def dict_get_def)
  have k: "value_key plain_store ` {VInt 1, VInt 2} = {VInt 1, VInt 2}"
    by (simp add: plain_store_def)
  from unique_count_metric_counts_values [OF h1 h2 h3 h4, of "''price''", where ?'fig = unit]
  obtain evs :: "unit ui_event list" where
    "field_metrics plain_store ?c [] ''price'' [''Unique Count''] = (evs, None)"
    "UiMetric ''Unique Count''
       (VInt (int (card (value_key plain_store `
          {v. \<exists>d \<in> set ?c. field_value plain_store ''price'' d = Some v})))) \<in> set evs"
    by blast
  then show ?thesis by (simp only: vals k) simp
qed

section \<open>Claims about rendering\<close>

lemma draw_raises: "drawing_raises lib built e \<Longrightarrow> draw lib evs built = (evs, Some e)"
  by (auto simp: drawing_raises_def draw_def)

text \<open>
  Claim C7, as stated, fails for the chart chosen by the user in dynamic\_dashboard\_df:
  the warning carries the text of the exception, so two different failures give two
  different warnings, and an exception whose class does not derive from \<open>Exception\<close> is not
  caught at all.
\<close>

theorem custom_chart_warning_carries_error:
  "render_custom_chart (failing_charting (PyExn True ''boom'')) Scatter empty_frame
       (VStr ''price'') (VStr ''bedrooms'') VNone VNone
     = ([UiWarning (''Couldn'' @ [CHR 0x27] @ ''t render chart: boom'')], None)
   \<and> render_custom_chart (failing_charting (PyExn True ''no such column'')) Scatter empty_frame
       (VStr ''price'') (VStr ''bedrooms'') VNone VNone
     = ([UiWarning (''Couldn'' @ [CHR 0x27] @ ''t render chart: no such column'')], None)
   \<and> render_custom_chart (failing_charting (PyExn False ''KeyboardInterrupt'')) Scatter empty_frame
       (VStr ''price'') (VStr ''bedrooms'') VNone VNone
     = ([], Some (PyExn False ''KeyboardInterrupt''))"
  by (simp add: render_custom_chart_def except_Exception_def draw_def failing_charting_def)

text \<open>
  Claim C7, amended. In each of the five panel renderers of airbnb\_analytics, whatever
  exception the computation or the chart-drawing of the panel raises is caught and
  replaced by the panel's fixed warning, and the renderer returns its events (it has no
  exceptional result). The renderer of the chosen chart in dynamic\_dashboard\_df catches
  the exceptions that derive from \<open>Exception\<close> and shows the warning
  \<open>Couldn't render chart: \<close> followed by the text of the exception; any other exception goes
  on to the caller.
\<close>

theorem renderers_catch_and_warn:
  "(metric_texts lib df metric_formats = Inl e \<longrightarrow>
      render_metrics lib df = [UiHeader metrics_header, UiWarning ''Metrics unavailable''])
   \<and> (drawing_raises lib (px_chart lib ''scatter'' df price_kwargs) e \<longrightarrow>
      render_price_analysis lib df
        = [UiHeader pricing_header, UiWarning ''Price analysis unavailable''])
   \<and> (review_cols df \<noteq> [] \<and> drawing_raises lib (review_figure lib df (review_cols df)) e \<longrightarrow>
      render_review_analysis lib df
        = [UiHeader review_header, UiWarning ''Review analysis unavailable''])
   \<and> (has_column df ''amenities''
        \<and> (top_amenities lib df = Inl e
           \<or> (\<exists>amenities. top_amenities lib df = Inr amenities
                \<and> drawing_raises lib (px_chart lib ''bar'' amenities amenities_kwargs) e)) \<longrightarrow>
      render_amenities lib df
        = [UiHeader amenities_header, UiWarning ''Amenities analysis unavailable''])
   \<and> (has_column df ''lat'' \<and> has_column df ''lon''
        \<and> (dropna lib df [''lat'', ''lon''] = Inl e
           \<or> (\<exists>located. dropna lib df [''lat'', ''lon''] = Inr located
                \<and> drawing_raises lib (px_chart lib ''scatter_mapbox'' located geo_kwargs) e)) \<longrightarrow>
      render_geo lib df = [UiHeader geo_header, UiWarning ''Map unavailable''])
   \<and> (drawing_raises lib (build_chart lib kind df x_axis y_axis color_field size_field) e \<longrightarrow>
      render_custom_chart lib kind df x_axis y_axis color_field size_field
        = (if derives_Exception e
           then ([UiWarning (''Couldn'' @ [CHR 0x27] @ ''t render chart: '' @ str_of e)], None)
           else ([], Some e)))"
proof -
  have a: "render_metrics lib df = [UiHeader metrics_header, UiWarning ''Metrics unavailable'']"
    if "metric_texts lib df metric_formats = Inl e"
    using that by (simp add: render_metrics_def metrics_panel_def except_all_def)
  have b: "render_price_analysis lib df
        = [UiHeader pricing_header, UiWarning ''Price analysis unavailable'']"
    if "drawing_raises lib (px_chart lib ''scatter'' df price_kwargs) e"
    using draw_raises [OF that] by (simp add: render_price_analysis_def except_all_def)
  have c: "render_review_analysis lib df
        = [UiHeader review_header, UiWarning ''Review analysis unavailable'']"
    if "review_cols df \<noteq> []" "drawing_raises lib (review_figure lib df (review_cols df)) e"
    using that(1) draw_raises [OF that(2)]
    by (simp add: render_review_analysis_def except_all_def)
  have d: "render_amenities lib df
        = [UiHeader amenities_header, UiWarning ''Amenities analysis unavailable'']"
    if "has_column df ''amenities''"
      "top_amenities lib df = Inl e
           \<or> (\<exists>amenities. top_amenities lib df = Inr amenities
                \<and> drawing_raises lib (px_chart lib ''bar'' amenities amenities_kwargs) e)"
    using that(2)
  proof
    assume "top_amenities lib df = Inl e"
    with that(1) show ?thesis by (simp add: render_amenities_def except_all_def)
  next
    assume "\<exists>amenities. top_amenities lib df = Inr amenities
                \<and> drawing_raises lib (px_chart lib ''bar'' amenities amenities_kwargs) e"
    then obtain amenities where t: "top_amenities lib df = Inr amenities"
      and r: "drawing_raises lib (px_chart lib ''bar'' amenities amenities_kwargs) e" by blast
    from that(1) t draw_raises [OF r] show ?thesis
      by (simp add: render_amenities_def except_all_def)
  qed
  have g: "render_geo lib df = [UiHeader geo_header, UiWarning ''Map unavailable'']"
    if "has_column df ''lat''" "has_column df ''lon''"
      "dropna lib df [''lat'', ''lon''] = Inl e
           \<or> (\<exists>located. dropna lib df [''lat'', ''lon''] = Inr located
                \<and> drawing_raises lib (px_chart lib ''scatter_mapbox'' located geo_kwargs) e)"
    using that(3)
  proof
    assume "dropna lib df [''lat'', ''lon''] = Inl e"
    with that(1,2) show ?thesis by (simp add: render_geo_def except_all_def)
  next
    assume "\<exists>located. dropna lib df [''lat'', ''lon''] = Inr located
                \<and> drawing_raises lib (px_chart lib ''scatter_mapbox'' located geo_kwargs) e"
    then obtain located where t: "dropna lib df [''lat'', ''lon''] = Inr located"
      and r: "drawing_raises lib (px_chart lib ''scatter_mapbox'' located geo_kwargs) e" by blast
    from that(1,2) t draw_raises [OF r] show ?thesis
      by (simp add: render_geo_def except_all_def)
  qed
  have h: "render_custom_chart lib kind df x_axis y_axis color_field size_field
        = (if derives_Exception e
           then ([UiWarning (''Couldn'' @ [CHR 0x27] @ ''t render chart: '' @ str_of e)], None)
           else ([], Some e))"
    if "drawing_raises lib (build_chart lib kind df x_axis y_axis color_field size_field) e"
    using draw_raises [OF that] by (simp add: render_custom_chart_def except_Exception_def)
  from a b c d g h show ?thesis by blast
qed

text \<open>The theorem with the library in which every call raises, on a table that holds the
  columns the panels ask for.\<close>

theorem renderers_catch_and_warn_witness:
  "render_metrics (failing_charting (PyExn True ''boom'')) empty_frame
     = [UiHeader metrics_header, UiWarning ''Metrics unavailable'']
   \<and> render_price_analysis (failing_charting (PyExn True ''boom'')) empty_frame
     = [UiHeader pricing_header, UiWarning ''Price analysis unavailable'']
   \<and> render_review_analysis (failing_charting (PyExn True ''boom''))
        \<lparr>nrows = 0, columns = [(''review_scores_value'', []), (''amenities'', []), (''lat'', []), (''lon'', [])]\<rparr>
     = [UiHeader review_header, UiWarning ''Review analysis unavailable'']
   \<and> render_amenities (failing_charting (PyExn True ''boom''))
        \<lparr>nrows = 0, columns = [(''review_scores_value'', []), (''amenities'', []), (''lat'', []), (''lon'', [])]\<rparr>
     = [UiHeader amenities_header, UiWarning ''Amenities analysis unavailable'']
   \<and> render_geo (failing_charting (PyExn True ''boom''))
        \<lparr>nrows = 0, columns = [(''review_scores_value'', []), (''amenities'', []), (''lat'', []), (''lon'', [])]\<rparr>
     = [UiHeader geo_header, UiWarning ''Map unavailable'']
   \<and> render_custom_chart (failing_charting (PyExn True ''boom'')) Pie empty_frame
        (VStr ''room_type'') (VStr ''price'') VNone VNone
     = ([UiWarning (''Couldn'' @ [CHR 0x27] @ ''t render chart: boom'')], None)"
proof -
  let ?lib = "failing_charting (PyExn True ''boom'')"
  let ?df = "\<lparr>nrows = 0, columns = [(''review_scores_value'', []), (''amenities'', []), (''lat'', []), (''lon'', [])]\<rparr>"
  have m: "metric_texts ?lib empty_frame metric_formats = Inl (PyExn True ''boom'')"
    by (simp add: metric_formats_def failing_charting_def)
  have p: "drawing_raises ?lib (px_chart ?lib ''scatter'' empty_frame price_kwargs) (PyExn True ''boom'')"
    by (simp add: drawing_raises_def failing_charting_def)
  have r: "review_cols ?df \<noteq> []
      \<and> drawing_raises ?lib (review_figure ?lib ?df (review_cols ?df)) (PyExn True ''boom'')"
    by (simp add: review_cols_def startswith_def drawing_raises_def failing_charting_def)
  have a: "has_column ?df ''amenities'' \<and> top_amenities ?lib ?df = Inl (PyExn True ''boom'')"
    by (simp add: has_column_def dict_has_def failing_charting_def)
  have g: "has_column ?df ''lat'' \<and> has_column ?df ''lon''
      \<and> dropna ?lib ?df [''lat'', ''lon''] = Inl (PyExn True ''boom'')"
    by (simp add: has_column_def dict_has_def failing_charting_def)
  have c: "drawing_raises ?lib
      (build_chart ?lib Pie empty_frame (VStr ''room_type'') (VStr ''price'') VNone VNone)
      (PyExn True ''boom'')"
    by (simp add: drawing_raises_def failing_charting_def)
  have d: "derives_Exception (PyExn True ''boom'')" "str_of (PyExn True ''boom'') = ''boom''"
    by simp_all
  from m p
    renderers_catch_and_warn [where lib = ?lib and df = empty_frame and e = "PyExn True ''boom''"]
  have one: "render_metrics ?lib empty_frame
       = [UiHeader metrics_header, UiWarning ''Metrics unavailable'']"
    and two: "render_price_analysis ?lib empty_frame
       = [UiHeader pricing_header, UiWarning ''Price analysis unavailable'']"
    by blast+
  from r a g
    renderers_catch_and_warn [where lib = ?lib and df = ?df and e = "PyExn True ''boom''"]
  have three: "render_review_analysis ?lib ?df
       = [UiHeader review_header, UiWarning ''Review analysis unavailable'']"
    and four: "render_amenities ?lib ?df
       = [UiHeader amenities_header, UiWarning ''Amenities analysis unavailable'']"
    and five: "render_geo ?lib ?df = [UiHeader geo_header, UiWarning ''Map unavailable'']"
    by blast+
  from c
    renderers_catch_and_warn [where lib = ?lib and df = empty_frame and e = "PyExn True ''boom''"
      and kind = Pie and x_axis = "VStr ''room_type''" and y_axis = "VStr ''price''"
      and color_field = VNone and size_field = VNone]
  have "render_custom_chart ?lib Pie empty_frame (VStr ''room_type'') (VStr ''price'') VNone VNone
      = (if derives_Exception (PyExn True ''boom'')
         then ([UiWarning (''Couldn'' @ [CHR 0x27] @ ''t render chart: '' @ str_of (PyExn True ''boom''))], None)
         else ([], Some (PyExn True ''boom'')))"
    by blast
  then have six: "render_custom_chart ?lib Pie empty_frame (VStr ''room_type'') (VStr ''price'') VNone VNone
      = ([UiWarning (''Couldn'' @ [CHR 0x27] @ ''t render chart: boom'')], None)"
    by simp
  from one two three four five six show ?thesis by simp
qed

end
